theory Spec2Isabelle
  imports Main
begin

section \<open>Nodes of the editor and the classes of the sources\<close>

text \<open>
  The sources define four node classes on top of the base classes of the core package:
  \<^verbatim>\<open>HashtagNode\<close> and \<^verbatim>\<open>MentionNode\<close> extend \<^verbatim>\<open>TextNode\<close>, \<^verbatim>\<open>OverflowNode\<close> extends
  \<^verbatim>\<open>ElementNode\<close>, \<^verbatim>\<open>HorizontalRuleNode\<close> extends \<^verbatim>\<open>DecoratorNode\<close>. A node object is a
  record of the fields the sources read and write; \<open>klass\<close> is the constructor of the
  object (what \<^verbatim>\<open>instanceof\<close> and \<^verbatim>\<open>node.constructor\<close> see). \<open>OtherNode v t\<close> stands for any
  other class registered with the editor (the list \<^verbatim>\<open>DEFAULT_NODES.concat(customNodes)\<close> of
  the test harness), given by the base variant it extends and its type tag.
\<close>

type_synonym NodeKey = string

datatype NodeVariant = RootVariant | ElementVariant | TextVariant | DecoratorVariant | LineBreakVariant

datatype Klass =
    HashtagNode
  | MentionNode
  | HorizontalRuleNode
  | OverflowNode
  | OtherNode NodeVariant string

datatype TextModeType = normal | token | segmented

record LexicalNode =
  klass :: Klass
  node_type :: string
  node_key :: NodeKey
  node_parent :: "NodeKey option"
  node_text :: string
  node_mode :: TextModeType
  directionless :: bool
  node_mention :: string
  node_children :: "NodeKey list"

text \<open>\<^verbatim>\<open>static getType()\<close> of each class.\<close>

fun getType :: "Klass \<Rightarrow> string" where
  "getType HashtagNode = ''hashtag''"
| "getType MentionNode = ''mention''"
| "getType HorizontalRuleNode = ''horizontalrule''"
| "getType OverflowNode = ''overflow''"
| "getType (OtherNode v t) = t"

text \<open>The base variant a class extends (its \<^verbatim>\<open>extends\<close> clause).\<close>

fun baseVariant :: "Klass \<Rightarrow> NodeVariant" where
  "baseVariant HashtagNode = TextVariant"
| "baseVariant MentionNode = TextVariant"
| "baseVariant HorizontalRuleNode = DecoratorVariant"
| "baseVariant OverflowNode = ElementVariant"
| "baseVariant (OtherNode v t) = v"

subsection \<open>The ambient editor and the base constructors\<close>

text \<open>
  Modelled from the spec: the base classes \<^verbatim>\<open>LexicalNode\<close>, \<^verbatim>\<open>TextNode\<close>, \<^verbatim>\<open>ElementNode\<close>,
  \<^verbatim>\<open>DecoratorNode\<close> and the function \<^verbatim>\<open>$applyNodeReplacement\<close> are imported from the core
  package and are not among the sources. The spec gives a node a stable key, a type tag, a
  nullable parent key, for a text node its string content and a mode (normal, segmented or
  token), for an element node its ordered child keys; and it describes
  \<^verbatim>\<open>$applyNodeReplacement\<close> as the place where "construction can transparently substitute
  a different live node". The editor in whose update the code runs is therefore a parameter:
  \<open>generatedKey\<close> is the key the base constructor gives a node built without one, and
  \<open>replacement\<close> is the registered replacement of a class (the \<^verbatim>\<open>{replace, with}\<close> entries
  of the editor configuration in the test harness), \<open>None\<close> when the class has none.
  A new node has no parent and no children; a new text node is in mode normal and is not
  directionless, which \<^verbatim>\<open>toggleDirectionless\<close> flips. Every property below builds at
  most one node without a key, so the editor's next key is not advanced.
\<close>

record EditorContext =
  generatedKey :: NodeKey
  replacement :: "Klass \<Rightarrow> (LexicalNode \<Rightarrow> LexicalNode) option"

definition applyNodeReplacement :: "EditorContext \<Rightarrow> LexicalNode \<Rightarrow> LexicalNode" where
  "applyNodeReplacement ctx node =
     (case replacement ctx (klass node) of
        None \<Rightarrow> node
      | Some replaceFunc \<Rightarrow> replaceFunc node)"

definition LexicalNode_new :: "EditorContext \<Rightarrow> Klass \<Rightarrow> NodeKey option \<Rightarrow> LexicalNode" where
  "LexicalNode_new ctx k key =
     \<lparr> klass = k,
       node_type = getType k,
       node_key = (case key of Some existingKey \<Rightarrow> existingKey | None \<Rightarrow> generatedKey ctx),
       node_parent = None,
       node_text = [],
       node_mode = normal,
       directionless = False,
       node_mention = [],
       node_children = [] \<rparr>"

definition TextNode_new :: "EditorContext \<Rightarrow> Klass \<Rightarrow> string \<Rightarrow> NodeKey option \<Rightarrow> LexicalNode" where
  "TextNode_new ctx k txt key = (LexicalNode_new ctx k key) \<lparr> node_text := txt \<rparr>"

definition ElementNode_new :: "EditorContext \<Rightarrow> Klass \<Rightarrow> NodeKey option \<Rightarrow> LexicalNode" where
  "ElementNode_new ctx k key = LexicalNode_new ctx k key"

definition DecoratorNode_new :: "EditorContext \<Rightarrow> Klass \<Rightarrow> NodeKey option \<Rightarrow> LexicalNode" where
  "DecoratorNode_new ctx k key = LexicalNode_new ctx k key"

text \<open>\<^verbatim>\<open>TextNode.setMode\<close> and \<^verbatim>\<open>TextNode.toggleDirectionless\<close>, which return the node.\<close>

definition setMode :: "TextModeType \<Rightarrow> LexicalNode \<Rightarrow> LexicalNode" where
  "setMode m self = self \<lparr> node_mode := m \<rparr>"

definition toggleDirectionless :: "LexicalNode \<Rightarrow> LexicalNode" where
  "toggleDirectionless self = self \<lparr> directionless := \<not> directionless self \<rparr>"

subsection \<open>HashtagNode\<close>

definition HashtagNode_new :: "EditorContext \<Rightarrow> string \<Rightarrow> NodeKey option \<Rightarrow> LexicalNode" where
  "HashtagNode_new ctx txt key = applyNodeReplacement ctx (TextNode_new ctx HashtagNode txt key)"

definition HashtagNode_clone :: "EditorContext \<Rightarrow> LexicalNode \<Rightarrow> LexicalNode" where
  "HashtagNode_clone ctx node = HashtagNode_new ctx (node_text node) (Some (node_key node))"

definition HashtagNode_canInsertTextBefore :: "LexicalNode \<Rightarrow> bool" where
  "HashtagNode_canInsertTextBefore self = False"

definition HashtagNode_isTextEntity :: "LexicalNode \<Rightarrow> bool" where
  "HashtagNode_isTextEntity self = True"

definition createHashtagNode :: "EditorContext \<Rightarrow> string \<Rightarrow> LexicalNode" where
  "createHashtagNode ctx txt = HashtagNode_new ctx txt None"

definition isHashtagNode :: "LexicalNode option \<Rightarrow> bool" where
  "isHashtagNode node = (case node of None \<Rightarrow> False | Some n \<Rightarrow> klass n = HashtagNode)"

subsection \<open>MentionNode\<close>

definition MentionNode_new ::
  "EditorContext \<Rightarrow> string \<Rightarrow> string option \<Rightarrow> NodeKey option \<Rightarrow> LexicalNode" where
  "MentionNode_new ctx mentionName txt key =
     applyNodeReplacement ctx
       ((TextNode_new ctx MentionNode (case txt of Some t \<Rightarrow> t | None \<Rightarrow> mentionName) key)
          \<lparr> node_mention := mentionName \<rparr>)"

definition MentionNode_clone :: "EditorContext \<Rightarrow> LexicalNode \<Rightarrow> LexicalNode" where
  "MentionNode_clone ctx node =
     MentionNode_new ctx (node_mention node) (Some (node_text node)) (Some (node_key node))"

definition MentionNode_isTextEntity :: "LexicalNode \<Rightarrow> bool" where
  "MentionNode_isTextEntity self = True"

definition createMentionNode :: "EditorContext \<Rightarrow> string \<Rightarrow> LexicalNode" where
  "createMentionNode ctx mentionName =
     (let mentionNode = MentionNode_new ctx mentionName None None
      in toggleDirectionless (setMode segmented mentionNode))"

definition isMentionNode :: "LexicalNode option \<Rightarrow> bool" where
  "isMentionNode node = (case node of None \<Rightarrow> False | Some n \<Rightarrow> klass n = MentionNode)"

subsection \<open>HorizontalRuleNode\<close>

definition HorizontalRuleNode_new :: "EditorContext \<Rightarrow> NodeKey option \<Rightarrow> LexicalNode" where
  "HorizontalRuleNode_new ctx key =
     applyNodeReplacement ctx (DecoratorNode_new ctx HorizontalRuleNode key)"

definition HorizontalRuleNode_clone :: "EditorContext \<Rightarrow> LexicalNode \<Rightarrow> LexicalNode" where
  "HorizontalRuleNode_clone ctx node = HorizontalRuleNode_new ctx (Some (node_key node))"

definition HorizontalRuleNode_getTextContent :: "LexicalNode \<Rightarrow> string" where
  "HorizontalRuleNode_getTextContent self = [CHR 0x0A]"

definition HorizontalRuleNode_isInline :: "LexicalNode \<Rightarrow> bool" where
  "HorizontalRuleNode_isInline self = False"

definition HorizontalRuleNode_updateDOM :: "LexicalNode \<Rightarrow> bool" where
  "HorizontalRuleNode_updateDOM self = False"

definition createHorizontalRuleNode :: "EditorContext \<Rightarrow> LexicalNode" where
  "createHorizontalRuleNode ctx = HorizontalRuleNode_new ctx None"

definition isHorizontalRuleNode :: "LexicalNode option \<Rightarrow> bool" where
  "isHorizontalRuleNode node =
     (case node of None \<Rightarrow> False | Some n \<Rightarrow> klass n = HorizontalRuleNode)"

subsection \<open>OverflowNode\<close>

definition OverflowNode_new :: "EditorContext \<Rightarrow> NodeKey option \<Rightarrow> LexicalNode" where
  "OverflowNode_new ctx key =
     applyNodeReplacement ctx ((ElementNode_new ctx OverflowNode key) \<lparr> node_type := ''overflow'' \<rparr>)"

definition OverflowNode_clone :: "EditorContext \<Rightarrow> LexicalNode \<Rightarrow> LexicalNode" where
  "OverflowNode_clone ctx node = OverflowNode_new ctx (Some (node_key node))"

definition OverflowNode_excludeFromCopy :: "LexicalNode \<Rightarrow> bool" where
  "OverflowNode_excludeFromCopy self = True"

definition createOverflowNode :: "EditorContext \<Rightarrow> LexicalNode" where
  "createOverflowNode ctx = OverflowNode_new ctx None"

definition isOverflowNode :: "LexicalNode option \<Rightarrow> bool" where
  "isOverflowNode node = (case node of None \<Rightarrow> False | Some n \<Rightarrow> klass n = OverflowNode)"

section \<open>Virtual calls\<close>

text \<open>
  A call \<^verbatim>\<open>node.method()\<close> runs the method of the node's class. The classes of the sources
  override a few methods each and inherit the others from base classes that are not among
  the sources; the inherited implementation is the parameter \<open>inherited\<close>.
\<close>

definition clone ::
  "(EditorContext \<Rightarrow> LexicalNode \<Rightarrow> LexicalNode) \<Rightarrow> EditorContext \<Rightarrow> LexicalNode \<Rightarrow> LexicalNode" where
  "clone inherited ctx node =
     (case klass node of
        HashtagNode \<Rightarrow> HashtagNode_clone ctx node
      | MentionNode \<Rightarrow> MentionNode_clone ctx node
      | HorizontalRuleNode \<Rightarrow> HorizontalRuleNode_clone ctx node
      | OverflowNode \<Rightarrow> OverflowNode_clone ctx node
      | OtherNode v t \<Rightarrow> inherited ctx node)"

definition isTextEntity :: "(LexicalNode \<Rightarrow> bool) \<Rightarrow> LexicalNode \<Rightarrow> bool" where
  "isTextEntity inherited self =
     (case klass self of
        HashtagNode \<Rightarrow> HashtagNode_isTextEntity self
      | MentionNode \<Rightarrow> MentionNode_isTextEntity self
      | _ \<Rightarrow> inherited self)"

definition canInsertTextBefore :: "(LexicalNode \<Rightarrow> bool) \<Rightarrow> LexicalNode \<Rightarrow> bool" where
  "canInsertTextBefore inherited self =
     (case klass self of
        HashtagNode \<Rightarrow> HashtagNode_canInsertTextBefore self
      | _ \<Rightarrow> inherited self)"

definition excludeFromCopy :: "(LexicalNode \<Rightarrow> bool) \<Rightarrow> LexicalNode \<Rightarrow> bool" where
  "excludeFromCopy inherited self =
     (case klass self of
        OverflowNode \<Rightarrow> OverflowNode_excludeFromCopy self
      | _ \<Rightarrow> inherited self)"

section \<open>The external format: DOM elements, export and import\<close>

text \<open>
  An \<^verbatim>\<open>HTMLElement\<close> as the sources use it: \<^verbatim>\<open>document.createElement\<close>, \<^verbatim>\<open>setAttribute\<close>,
  \<^verbatim>\<open>hasAttribute\<close> and the property \<^verbatim>\<open>textContent\<close>, whose type is \<^verbatim>\<open>string | null\<close>.
\<close>

record HTMLElement =
  tagName :: string
  attributes :: "(string \<times> string) list"
  textContent :: "string option"

definition createElement :: "string \<Rightarrow> HTMLElement" where
  "createElement tag = \<lparr> tagName = tag, attributes = [], textContent = Some [] \<rparr>"

definition setAttribute :: "string \<Rightarrow> string \<Rightarrow> HTMLElement \<Rightarrow> HTMLElement" where
  "setAttribute name v element =
     element \<lparr> attributes := (name, v) # filter (\<lambda>a. fst a \<noteq> name) (attributes element) \<rparr>"

definition hasAttribute :: "string \<Rightarrow> HTMLElement \<Rightarrow> bool" where
  "hasAttribute name element = (name \<in> fst ` set (attributes element))"

text \<open>
  \<^verbatim>\<open>DOMConversionOutput\<close> holds the node of a conversion; \<^verbatim>\<open>DOMConversion\<close> a conversion
  function and its priority; a \<^verbatim>\<open>DOMConversionMap\<close> gives, for a tag name, the function that
  decides whether the class converts the element.
\<close>

record DOMConversionOutput =
  output_node :: LexicalNode

record DOMConversion =
  conversion :: "EditorContext \<Rightarrow> HTMLElement \<Rightarrow> DOMConversionOutput option"
  priority :: nat

type_synonym DOMConversionMap = "string \<Rightarrow> (HTMLElement \<Rightarrow> DOMConversion option) option"

definition convertMentionElement :: "EditorContext \<Rightarrow> HTMLElement \<Rightarrow> DOMConversionOutput option" where
  "convertMentionElement ctx domNode =
     (case textContent domNode of
        Some txt \<Rightarrow> Some \<lparr> output_node = createMentionNode ctx txt \<rparr>
      | None \<Rightarrow> None)"

definition MentionNode_exportDOM :: "LexicalNode \<Rightarrow> HTMLElement" where
  "MentionNode_exportDOM self =
     (let element = createElement ''span'';
          element = setAttribute ''data-lexical-mention'' ''true'' element;
          element = element \<lparr> textContent := Some (node_text self) \<rparr>
      in element)"

definition MentionNode_importDOM :: "DOMConversionMap option" where
  "MentionNode_importDOM =
     Some (\<lambda>tag. if tag = ''span''
        then Some (\<lambda>domNode.
          if \<not> hasAttribute ''data-lexical-mention'' domNode then None
          else Some \<lparr> conversion = convertMentionElement, priority = 1 \<rparr>)
        else None)"

definition convertHorizontalRuleElement ::
  "EditorContext \<Rightarrow> HTMLElement \<Rightarrow> DOMConversionOutput option" where
  "convertHorizontalRuleElement ctx domNode = Some \<lparr> output_node = createHorizontalRuleNode ctx \<rparr>"

definition HorizontalRuleNode_importDOM :: "DOMConversionMap option" where
  "HorizontalRuleNode_importDOM =
     Some (\<lambda>tag. if tag = ''hr''
        then Some (\<lambda>domNode. Some \<lparr> conversion = convertHorizontalRuleElement, priority = 0 \<rparr>)
        else None)"

definition HorizontalRuleNode_exportDOM :: "LexicalNode \<Rightarrow> HTMLElement" where
  "HorizontalRuleNode_exportDOM self = createElement ''hr''"

definition OverflowNode_importDOM :: "DOMConversionMap option" where
  "OverflowNode_importDOM = None"

text \<open>
  The static \<^verbatim>\<open>importDOM\<close> and the method \<^verbatim>\<open>exportDOM\<close> by class. \<^verbatim>\<open>HashtagNode\<close> defines
  neither and inherits both.
\<close>

definition importDOM :: "(Klass \<Rightarrow> DOMConversionMap option) \<Rightarrow> Klass \<Rightarrow> DOMConversionMap option" where
  "importDOM inherited k =
     (case k of
        MentionNode \<Rightarrow> MentionNode_importDOM
      | HorizontalRuleNode \<Rightarrow> HorizontalRuleNode_importDOM
      | OverflowNode \<Rightarrow> OverflowNode_importDOM
      | _ \<Rightarrow> inherited k)"

definition exportDOM :: "(LexicalNode \<Rightarrow> HTMLElement) \<Rightarrow> LexicalNode \<Rightarrow> HTMLElement" where
  "exportDOM inherited self =
     (case klass self of
        MentionNode \<Rightarrow> MentionNode_exportDOM self
      | HorizontalRuleNode \<Rightarrow> HorizontalRuleNode_exportDOM self
      | _ \<Rightarrow> inherited self)"

text \<open>
  Modelled from the spec: the importer that walks an external document is not among the
  sources. The spec describes \<^verbatim>\<open>importExternalFormat\<close> as static, returning "a conversion
  function keyed by tag name, with a priority". \<open>importElement\<close> applies the conversion a
  class registers to one element: the entry of the element's tag, the conversion it
  returns for the element, and that conversion's function on the element. \<open>None\<close> is "the
  class does not convert this element".
\<close>

definition importElement ::
  "(Klass \<Rightarrow> DOMConversionMap option) \<Rightarrow> EditorContext \<Rightarrow> Klass \<Rightarrow> HTMLElement
     \<Rightarrow> DOMConversionOutput option" where
  "importElement inherited ctx k element =
     (case importDOM inherited k of
        None \<Rightarrow> None
      | Some conversionMap \<Rightarrow>
          (case conversionMap (tagName element) of
             None \<Rightarrow> None
           | Some entry \<Rightarrow>
               (case entry element of
                  None \<Rightarrow> None
                | Some domConversion \<Rightarrow> conversion domConversion ctx element)))"

text \<open>
  Modelled from the spec: the copy pipeline is not among the sources; the spec lists
  \<^verbatim>\<open>excludeFromCopy()\<close> in the extension contract. Copied content keeps the nodes whose
  \<^verbatim>\<open>excludeFromCopy()\<close> is false.
\<close>

definition copiedNodes :: "(LexicalNode \<Rightarrow> bool) \<Rightarrow> LexicalNode list \<Rightarrow> LexicalNode list" where
  "copiedNodes inherited nodes = filter (\<lambda>n. \<not> excludeFromCopy inherited n) nodes"

section \<open>The reconciler's decisions\<close>

definition OverflowNode_updateDOM :: "LexicalNode \<Rightarrow> LexicalNode \<Rightarrow> HTMLElement \<Rightarrow> bool" where
  "OverflowNode_updateDOM self prevNode domElement = False"

definition updateDOM ::
  "(LexicalNode \<Rightarrow> LexicalNode \<Rightarrow> HTMLElement \<Rightarrow> bool)
     \<Rightarrow> LexicalNode \<Rightarrow> LexicalNode \<Rightarrow> HTMLElement \<Rightarrow> bool" where
  "updateDOM inherited self prevNode domElement =
     (case klass self of
        HorizontalRuleNode \<Rightarrow> HorizontalRuleNode_updateDOM self
      | OverflowNode \<Rightarrow> OverflowNode_updateDOM self prevNode domElement
      | _ \<Rightarrow> inherited self prevNode domElement)"

text \<open>
  Modelled from the spec: the reconciler is not among the sources. Section 4.3: "for each
  dirty key, if absent in next, remove its DOM representation; if absent in prev, create
  and insert it; if present in both, call the node's updateDOMRepresentation; if it returns
  true, destroy and recreate the DOM node".
\<close>

datatype DOMAction = RemoveDOM | CreateDOM | ReplaceDOM | UpdateInPlace

definition reconcileKey ::
  "(LexicalNode \<Rightarrow> LexicalNode \<Rightarrow> HTMLElement \<Rightarrow> bool)
     \<Rightarrow> (NodeKey \<rightharpoonup> LexicalNode) \<Rightarrow> (NodeKey \<rightharpoonup> LexicalNode) \<Rightarrow> HTMLElement \<Rightarrow> NodeKey
     \<Rightarrow> DOMAction" where
  "reconcileKey inherited prevMap nextMap domElement k =
     (case nextMap k of
        None \<Rightarrow> RemoveDOM
      | Some nextNode \<Rightarrow>
          (case prevMap k of
             None \<Rightarrow> CreateDOM
           | Some prevNode \<Rightarrow>
               if updateDOM inherited nextNode prevNode domElement then ReplaceDOM else UpdateInPlace))"

text \<open>
  Modelled from the spec: section 4.3 again, "Text node updates merge adjacent compatible
  text runs [...] but must not merge across a node whose mode is segmented or token". What
  makes two runs compatible is not said; it is the parameter \<open>compatible\<close>.
\<close>

definition canMergeTextRuns ::
  "(LexicalNode \<Rightarrow> LexicalNode \<Rightarrow> bool) \<Rightarrow> LexicalNode \<Rightarrow> LexicalNode \<Rightarrow> bool" where
  "canMergeTextRuns compatible a b =
     (compatible a b
      \<and> node_mode a \<noteq> segmented \<and> node_mode a \<noteq> token
      \<and> node_mode b \<noteq> segmented \<and> node_mode b \<noteq> token)"

section \<open>Editor state, selection and tree mutation\<close>

text \<open>
  Modelled from the spec: the editor state, the selection and the node-mutation API of the
  core are not among the sources. Section 3: an Editor State is a node table (key to node),
  a selection snapshot and a version; a selection is a Range (anchor key and offset, focus
  key and offset), a Node selection (a set of selected keys) or none. Section 7 names the
  errors; \<open>HostError\<close> is any other exception a mutator throws.
\<close>

datatype BaseSelection =
    RangeSelection NodeKey nat NodeKey nat
  | NodeSelection "NodeKey set"

record EditorState =
  nodeMap :: "NodeKey \<rightharpoonup> LexicalNode"
  selection :: "BaseSelection option"
  version :: nat

datatype LexicalError =
    StaleNodeError
  | InvalidMoveError
  | NoActiveTransactionError
  | HostError string

definition getNodeByKey :: "EditorState \<Rightarrow> NodeKey \<Rightarrow> LexicalNode option" where
  "getNodeByKey st k = nodeMap st k"

definition getSelection :: "EditorState \<Rightarrow> BaseSelection option" where
  "getSelection st = selection st"

definition isNodeSelection :: "BaseSelection option \<Rightarrow> bool" where
  "isNodeSelection x = (case x of Some (NodeSelection keys) \<Rightarrow> True | _ \<Rightarrow> False)"

text \<open>
  A call of the mutation API runs against the working table and may throw: its result is
  the error thrown, if any, and the working state as the call leaves it.

  Modelled from the spec: \<^verbatim>\<open>node.remove()\<close>. Section 4.1: each mutation validates that "the
  acting node still exists in the current transaction's working table (fails with
  StaleNodeError otherwise)"; section 3: a node is "destroyed by removal from the tree (key
  evicted from the next node table)", and an element holds the "ordered sequence of child
  keys", which loses the key.
\<close>

type_synonym Mutation = "EditorState \<Rightarrow> LexicalError option \<times> EditorState"

definition detachFromParent ::
  "(NodeKey \<rightharpoonup> LexicalNode) \<Rightarrow> NodeKey \<Rightarrow> LexicalNode \<Rightarrow> (NodeKey \<rightharpoonup> LexicalNode)" where
  "detachFromParent tbl k latest =
     (case node_parent latest of
        None \<Rightarrow> tbl
      | Some p \<Rightarrow>
          (case tbl p of
             None \<Rightarrow> tbl
           | Some parentNode \<Rightarrow>
               tbl(p \<mapsto> parentNode \<lparr> node_children := removeAll k (node_children parentNode) \<rparr>)))"

definition LexicalNode_remove :: "LexicalNode \<Rightarrow> Mutation" where
  "LexicalNode_remove self st =
     (case nodeMap st (node_key self) of
        None \<Rightarrow> (Some StaleNodeError, st)
      | Some latest \<Rightarrow>
          (None, st \<lparr> nodeMap := (detachFromParent (nodeMap st) (node_key self) latest)
                                    (node_key self := None) \<rparr>))"

text \<open>
  The table without the keys \<open>D\<close>: their entries are gone and no child list names them.
  Every other entry keeps its class, key, parent and content.
\<close>

definition withoutChildren :: "NodeKey set \<Rightarrow> LexicalNode \<Rightarrow> LexicalNode" where
  "withoutChildren D n = n \<lparr> node_children := filter (\<lambda>c. c \<notin> D) (node_children n) \<rparr>"

definition evictKeys :: "NodeKey set \<Rightarrow> (NodeKey \<rightharpoonup> LexicalNode) \<Rightarrow> (NodeKey \<rightharpoonup> LexicalNode)" where
  "evictKeys D tbl = (\<lambda>k. if k \<in> D then None else map_option (withoutChildren D) (tbl k))"

text \<open>
  The spec's invariant "every non-Root node has exactly one parent", as far as the child
  lists go: a key in the child list of an entry is an entry whose parent is that entry.
\<close>

definition childrenHaveParent :: "(NodeKey \<rightharpoonup> LexicalNode) \<Rightarrow> bool" where
  "childrenHaveParent tbl =
     (\<forall>p parentNode c. tbl p = Some parentNode \<and> c \<in> set (node_children parentNode)
        \<longrightarrow> (\<exists>child. tbl c = Some child \<and> node_parent child = Some p))"

text \<open>The key under which the table holds a node is the node's key.\<close>

definition keysAgree :: "(NodeKey \<rightharpoonup> LexicalNode) \<Rightarrow> bool" where
  "keysAgree tbl = (\<forall>k n. tbl k = Some n \<longrightarrow> node_key n = k)"

section \<open>Command dispatch\<close>

text \<open>
  Modelled from the spec: \<^verbatim>\<open>registerCommand\<close> and the dispatch of a command are not among
  the sources. Section 4.5: "registerCommand(type, handler, priority) returns an unregister
  handle; dispatch walks handlers from highest to lowest priority, stopping at the first
  handler returning true (handled)". A listener gets the payload and runs against the
  state; it returns a boolean or throws. Listeners of equal priority run in the order of
  their registration. The trace of a dispatch lists the registrations invoked that
  returned, each with what it returned.
\<close>

datatype CommandType =
    CLICK_COMMAND
  | KEY_DELETE_COMMAND
  | KEY_BACKSPACE_COMMAND
  | INSERT_HORIZONTAL_RULE_COMMAND

type_synonym ('p, 's) CommandListener = "'p \<Rightarrow> 's \<Rightarrow> (LexicalError + bool) \<times> 'p \<times> 's"

record ('p, 's) Registration =
  reg_id :: nat
  reg_priority :: nat
  reg_listener :: "('p, 's) CommandListener"

record ('p, 's) CommandRegistry =
  listeners :: "CommandType \<Rightarrow> ('p, 's) Registration list"
  nextId :: nat

definition COMMAND_PRIORITY_LOW :: nat where
  "COMMAND_PRIORITY_LOW = 1"

definition registerCommand ::
  "CommandType \<Rightarrow> ('p, 's) CommandListener \<Rightarrow> nat \<Rightarrow> ('p, 's) CommandRegistry
     \<Rightarrow> ('p, 's) CommandRegistry \<times> (CommandType \<times> nat)" where
  "registerCommand ty listener prio registry =
     (let r = \<lparr> reg_id = nextId registry, reg_priority = prio, reg_listener = listener \<rparr>
      in (registry \<lparr> listeners := (listeners registry)(ty := listeners registry ty @ [r]),
                      nextId := Suc (nextId registry) \<rparr>,
          (ty, nextId registry)))"

definition unregister ::
  "(CommandType \<times> nat) \<Rightarrow> ('p, 's) CommandRegistry \<Rightarrow> ('p, 's) CommandRegistry" where
  "unregister handle registry =
     registry \<lparr> listeners := (listeners registry)
        (fst handle := filter (\<lambda>r. reg_id r \<noteq> snd handle) (listeners registry (fst handle))) \<rparr>"

fun listenersAtOrBelow :: "nat \<Rightarrow> ('p, 's) Registration list \<Rightarrow> ('p, 's) Registration list" where
  "listenersAtOrBelow 0 rs = filter (\<lambda>r. reg_priority r = 0) rs"
| "listenersAtOrBelow (Suc i) rs =
     filter (\<lambda>r. reg_priority r = Suc i) rs @ listenersAtOrBelow i rs"

definition highestPriority :: "('p, 's) Registration list \<Rightarrow> nat" where
  "highestPriority rs = fold max (map reg_priority rs) 0"

definition listenersInOrder :: "('p, 's) Registration list \<Rightarrow> ('p, 's) Registration list" where
  "listenersInOrder rs = listenersAtOrBelow (highestPriority rs) rs"

fun triggerCommandListeners ::
  "('p, 's) Registration list \<Rightarrow> 'p \<Rightarrow> 's
     \<Rightarrow> (nat \<times> bool) list \<times> ((LexicalError + bool) \<times> 'p \<times> 's)" where
  "triggerCommandListeners [] payload st = ([], (Inr False, payload, st))"
| "triggerCommandListeners (r # rs) payload st =
     (case reg_listener r payload st of
        (Inl e, payload', st') \<Rightarrow> ([], (Inl e, payload', st'))
      | (Inr True, payload', st') \<Rightarrow> ([(reg_id r, True)], (Inr True, payload', st'))
      | (Inr False, payload', st') \<Rightarrow>
          (case triggerCommandListeners rs payload' st' of
             (trace, outcome) \<Rightarrow> ((reg_id r, False) # trace, outcome)))"


definition dispatchCommand ::
  "('p, 's) CommandRegistry \<Rightarrow> CommandType \<Rightarrow> 'p \<Rightarrow> 's \<Rightarrow> (LexicalError + bool) \<times> 'p \<times> 's" where
  "dispatchCommand registry ty payload st =
     snd (triggerCommandListeners (listenersInOrder (listeners registry ty)) payload st)"

text \<open>
  For stating what a dispatch does: \<open>runAll\<close> is the payload and the state after the
  listeners of a list have run one after the other, whatever they returned, and \<open>resultAt\<close>
  is what the listener at a position of a list returns (or throws) when the listeners
  before it have run.
\<close>

fun runAll :: "('p, 's) Registration list \<Rightarrow> 'p \<Rightarrow> 's \<Rightarrow> 'p \<times> 's" where
  "runAll [] payload st = (payload, st)"
| "runAll (r # rs) payload st =
     (case reg_listener r payload st of (res, payload', st') \<Rightarrow> runAll rs payload' st')"


section \<open>The component of a horizontal rule\<close>

text \<open>
  The DOM event a command carries: the node whose element is the event's target (if it is
  the element of a node), the shift key, and the flag \<^verbatim>\<open>preventDefault()\<close> sets.
\<close>

record DOMEvent =
  target :: "NodeKey option"
  shiftKey :: bool
  defaultPrevented :: bool

definition preventDefault :: "DOMEvent \<Rightarrow> DOMEvent" where
  "preventDefault event = event \<lparr> defaultPrevented := True \<rparr>"

text \<open>
  Modelled from the spec: the hook \<^verbatim>\<open>useLexicalNodeSelection(nodeKey)\<close> is not among the
  sources. Section 4.4: the Node-selection variant "tracks a set of keys". The hook gives
  the component \<open>isSelected\<close> (whether the node was selected when the component last
  rendered), \<open>setSelected\<close> (add the key to the Node-selection or take it out, starting
  from an empty Node-selection when the selection is not one) and \<open>clearSelection\<close> (empty
  the Node-selection).
\<close>

record HorizontalRuleComponent =
  nodeKey :: NodeKey
  isSelected :: bool

definition setSelected :: "NodeKey \<Rightarrow> bool \<Rightarrow> EditorState \<Rightarrow> EditorState" where
  "setSelected k selected st =
     (let keys = (case selection st of Some (NodeSelection s) \<Rightarrow> s | _ \<Rightarrow> {})
      in st \<lparr> selection := Some (NodeSelection (if selected then insert k keys else keys - {k})) \<rparr>)"

definition clearSelection :: "EditorState \<Rightarrow> EditorState" where
  "clearSelection st =
     (case selection st of
        Some (NodeSelection s) \<Rightarrow> st \<lparr> selection := Some (NodeSelection {}) \<rparr>
      | _ \<Rightarrow> st)"

definition onDelete :: "HorizontalRuleComponent \<Rightarrow> (DOMEvent, EditorState) CommandListener" where
  "onDelete c payload st =
     (if isSelected c \<and> isNodeSelection (getSelection st) then
        (let event = preventDefault payload;
             node = getNodeByKey st (nodeKey c);
             removed = (if isHorizontalRuleNode node
                        then (case node of Some n \<Rightarrow> LexicalNode_remove n st | None \<Rightarrow> (None, st))
                        else (None, st))
         in (case removed of
               (Some e, st') \<Rightarrow> (Inl e, event, st')
             | (None, st') \<Rightarrow> (Inr False, event, setSelected (nodeKey c) False st')))
      else (Inr False, payload, st))"

definition onClick :: "HorizontalRuleComponent \<Rightarrow> (DOMEvent, EditorState) CommandListener" where
  "onClick c event st =
     (if target event = Some (nodeKey c) then
        (let st' = (if \<not> shiftKey event then clearSelection st else st)
         in (Inr True, event, setSelected (nodeKey c) (\<not> isSelected c) st'))
      else (Inr False, event, st))"

text \<open>The effect that registers the three listeners of a component (\<^verbatim>\<open>mergeRegister\<close>).\<close>

definition registerHorizontalRuleComponent ::
  "HorizontalRuleComponent \<Rightarrow> (DOMEvent, EditorState) CommandRegistry
     \<Rightarrow> (DOMEvent, EditorState) CommandRegistry" where
  "registerHorizontalRuleComponent c registry =
     (let (r1, h1) = registerCommand CLICK_COMMAND (onClick c) COMMAND_PRIORITY_LOW registry;
          (r2, h2) = registerCommand KEY_DELETE_COMMAND (onDelete c) COMMAND_PRIORITY_LOW r1;
          (r3, h3) = registerCommand KEY_BACKSPACE_COMMAND (onDelete c) COMMAND_PRIORITY_LOW r2
      in r3)"

definition emptyRegistry :: "('p, 's) CommandRegistry" where
  "emptyRegistry = \<lparr> listeners = (\<lambda>ty. []), nextId = 0 \<rparr>"

text \<open>
  The registry after the components of the document's horizontal rules have rendered, in
  the order of the list.
\<close>

definition mountHorizontalRules ::
  "HorizontalRuleComponent list \<Rightarrow> (DOMEvent, EditorState) CommandRegistry" where
  "mountHorizontalRules comps = fold registerHorizontalRuleComponent comps emptyRegistry"

section \<open>Transactions\<close>

text \<open>
  Modelled from the spec: \<^verbatim>\<open>editor.update\<close> and the commit of a transaction are not among
  the sources. Section 4.2: the mutator runs "with exclusive write access to a working copy
  of the tree"; the commit validates that the "selection still references live keys, else
  collapse to null" and freezes "the working table into the next Editor State". Section 5:
  "a transaction either completes or throws, in which case the working table is discarded
  and the prior Editor State remains authoritative". Section 6: the error callback is
  "invoked with any error raised during a transaction; if absent, the error propagates to
  the host environment uncaught". A mutator is the sequence of the calls it makes; a call
  that throws ends it, with the working table as that call left it.
\<close>

fun runMutator :: "Mutation list \<Rightarrow> Mutation" where
  "runMutator [] working = (None, working)"
| "runMutator (m # ms) working =
     (case m working of
        (Some e, working') \<Rightarrow> (Some e, working')
      | (None, working') \<Rightarrow> runMutator ms working')"

definition selectionIsLive :: "(NodeKey \<rightharpoonup> LexicalNode) \<Rightarrow> BaseSelection \<Rightarrow> bool" where
  "selectionIsLive tbl sel =
     (case sel of
        RangeSelection anchorKey anchorOffset focusKey focusOffset \<Rightarrow>
          tbl anchorKey \<noteq> None \<and> tbl focusKey \<noteq> None
      | NodeSelection s \<Rightarrow> (\<forall>k \<in> s. tbl k \<noteq> None))"

definition commitState :: "EditorState \<Rightarrow> EditorState" where
  "commitState working =
     working \<lparr> selection :=
                  (case selection working of
                     None \<Rightarrow> None
                   | Some sel \<Rightarrow> if selectionIsLive (nodeMap working) sel then Some sel else None),
               version := Suc (version working) \<rparr>"

text \<open>
  The editor: its current Editor State and the error callback of its configuration. The
  callback acts on the host environment \<open>'h\<close>. An update gives the editor, the host, and
  the error that reaches the host uncaught, if any.
\<close>

record 'h LexicalEditor =
  editorState :: EditorState
  onError :: "(LexicalError \<Rightarrow> 'h \<Rightarrow> 'h) option"

definition update ::
  "'h LexicalEditor \<Rightarrow> Mutation list \<Rightarrow> 'h \<Rightarrow> 'h LexicalEditor \<times> 'h \<times> LexicalError option" where
  "update editor mutatorFn host =
     (case runMutator mutatorFn (editorState editor) of
        (None, working) \<Rightarrow> (editor \<lparr> editorState := commitState working \<rparr>, host, None)
      | (Some e, working) \<Rightarrow>
          (case onError editor of
             Some callback \<Rightarrow> (editor, callback e host, None)
           | None \<Rightarrow> (editor, host, Some e)))"

text \<open>A statement of a mutator that throws a host error.\<close>

definition throwError :: "string \<Rightarrow> Mutation" where
  "throwError msg working = (Some (HostError msg), working)"

section \<open>Structural moves\<close>

text \<open>
  Modelled from the spec: \<^verbatim>\<open>append\<close>, \<^verbatim>\<open>insertAfter\<close> and \<^verbatim>\<open>insertBefore\<close> are not among the
  sources. Section 4.1: "Each mutation validates: the acting node still exists in the
  current transaction's working table (fails with StaleNodeError otherwise); structural
  moves cannot create cycles (fails with InvalidMoveError if target is a descendant of the
  node being moved); Text/Decorator nodes cannot have children"; section 7: InvalidMoveError
  is "structural mutation would create a cycle or violate element/leaf constraints".

  The walk from the target up its parents is a loop that ends at a node with no parent; on
  a table whose parent keys form a cycle it does not return, which is the value \<open>None\<close>.
\<close>

datatype MoveTarget =
    AppendTo NodeKey
  | InsertAfter NodeKey
  | InsertBefore NodeKey

fun anchorKey :: "MoveTarget \<Rightarrow> NodeKey" where
  "anchorKey (AppendTo k) = k"
| "anchorKey (InsertAfter k) = k"
| "anchorKey (InsertBefore k) = k"

partial_function (option) isSelfOrAncestorOf ::
  "(NodeKey \<rightharpoonup> LexicalNode) \<Rightarrow> NodeKey \<Rightarrow> NodeKey \<Rightarrow> bool option" where
  "isSelfOrAncestorOf tbl moved k =
     (if k = moved then Some True
      else (case tbl k of
              None \<Rightarrow> Some False
            | Some n \<Rightarrow>
                (case node_parent n of
                   None \<Rightarrow> Some False
                 | Some p \<Rightarrow> isSelfOrAncestorOf tbl moved p)))"

text \<open>The parent the moved node gets, and where it goes in that parent's child list.\<close>

fun newParentOf :: "MoveTarget \<Rightarrow> LexicalNode \<Rightarrow> NodeKey option" where
  "newParentOf (AppendTo k) anchorNode = Some k"
| "newParentOf (InsertAfter k) anchorNode = node_parent anchorNode"
| "newParentOf (InsertBefore k) anchorNode = node_parent anchorNode"

fun insertBeforeKey :: "NodeKey \<Rightarrow> NodeKey \<Rightarrow> NodeKey list \<Rightarrow> NodeKey list" where
  "insertBeforeKey a k [] = [k]"
| "insertBeforeKey a k (c # cs) = (if c = a then k # c # cs else c # insertBeforeKey a k cs)"

fun insertAfterKey :: "NodeKey \<Rightarrow> NodeKey \<Rightarrow> NodeKey list \<Rightarrow> NodeKey list" where
  "insertAfterKey a k [] = [k]"
| "insertAfterKey a k (c # cs) = (if c = a then c # k # cs else c # insertAfterKey a k cs)"

fun placeChild :: "MoveTarget \<Rightarrow> NodeKey \<Rightarrow> NodeKey list \<Rightarrow> NodeKey list" where
  "placeChild (AppendTo p) k cs = cs @ [k]"
| "placeChild (InsertAfter a) k cs = insertAfterKey a k cs"
| "placeChild (InsertBefore a) k cs = insertBeforeKey a k cs"

definition relocate ::
  "(NodeKey \<rightharpoonup> LexicalNode) \<Rightarrow> NodeKey \<Rightarrow> LexicalNode \<Rightarrow> MoveTarget \<Rightarrow> NodeKey
     \<Rightarrow> (NodeKey \<rightharpoonup> LexicalNode)" where
  "relocate tbl k moved tgt p =
     (let detached = (detachFromParent tbl k moved)(k \<mapsto> moved \<lparr> node_parent := Some p \<rparr>)
      in (case detached p of
            None \<Rightarrow> detached
          | Some parentNode \<Rightarrow>
              detached(p \<mapsto> parentNode \<lparr> node_children := placeChild tgt k (node_children parentNode) \<rparr>)))"

definition moveNode ::
  "NodeKey \<Rightarrow> MoveTarget \<Rightarrow> EditorState \<Rightarrow> (LexicalError option \<times> EditorState) option" where
  "moveNode k tgt st =
     (case nodeMap st k of
        None \<Rightarrow> Some (Some StaleNodeError, st)
      | Some moved \<Rightarrow>
          (case nodeMap st (anchorKey tgt) of
             None \<Rightarrow> Some (Some StaleNodeError, st)
           | Some anchorNode \<Rightarrow>
               (case isSelfOrAncestorOf (nodeMap st) k (anchorKey tgt) of
                  None \<Rightarrow> None
                | Some True \<Rightarrow> Some (Some InvalidMoveError, st)
                | Some False \<Rightarrow>
                    (case newParentOf tgt anchorNode of
                       None \<Rightarrow> Some (Some InvalidMoveError, st)
                     | Some p \<Rightarrow>
                         (case nodeMap st p of
                            None \<Rightarrow> Some (Some StaleNodeError, st)
                          | Some parentNode \<Rightarrow>
                              if baseVariant (klass parentNode) \<noteq> ElementVariant
                                 \<and> baseVariant (klass parentNode) \<noteq> RootVariant
                              then Some (Some InvalidMoveError, st)
                              else Some (None, st \<lparr> nodeMap := relocate (nodeMap st) k moved tgt p \<rparr>))))))"

text \<open>
  "The target is a descendant of the node being moved (including the node itself)": the
  target is the node, or the target's parent is such a descendant.
\<close>

inductive descendantOrSelf :: "(NodeKey \<rightharpoonup> LexicalNode) \<Rightarrow> NodeKey \<Rightarrow> NodeKey \<Rightarrow> bool"
  for tbl :: "NodeKey \<rightharpoonup> LexicalNode" where
  self: "descendantOrSelf tbl k k"
| child: "tbl k = Some n \<Longrightarrow> node_parent n = Some p \<Longrightarrow> descendantOrSelf tbl p a
           \<Longrightarrow> descendantOrSelf tbl k a"

section \<open>Example configurations and documents\<close>

text \<open>
  An editor with no replacement registered, and one whose configuration replaces each of
  the four classes by a host subclass: its \<^verbatim>\<open>with\<close> function builds a new node of the
  subclass (so with a key of its own) whose text is the original's behind an at sign.
\<close>

definition plainContext :: EditorContext where
  "plainContext = \<lparr> generatedKey = ''1'', replacement = (\<lambda>k. None) \<rparr>"

definition customReplacement :: "LexicalNode \<Rightarrow> LexicalNode" where
  "customReplacement node =
     node \<lparr> klass := OtherNode (baseVariant (klass node)) (''custom-'' @ getType (klass node)),
            node_type := ''custom-'' @ getType (klass node),
            node_key := ''2'',
            node_text := ''@'' @ node_text node \<rparr>"

definition replacingContext :: EditorContext where
  "replacingContext =
     \<lparr> generatedKey = ''1'',
       replacement = (\<lambda>k. case k of OtherNode v t \<Rightarrow> None | _ \<Rightarrow> Some customReplacement) \<rparr>"

text \<open>
  A document: a root with one paragraph that holds a horizontal rule, a hashtag and a
  second horizontal rule; both rules are selected by a Node-selection.
\<close>

definition exampleNode :: "Klass \<Rightarrow> NodeKey \<Rightarrow> NodeKey option \<Rightarrow> NodeKey list \<Rightarrow> LexicalNode" where
  "exampleNode k key p cs =
     (LexicalNode_new plainContext k (Some key)) \<lparr> node_parent := p, node_children := cs \<rparr>"

definition exampleHashtag :: LexicalNode where
  "exampleHashtag = (exampleNode HashtagNode ''t'' (Some ''p'') []) \<lparr> node_text := ''#lexical'' \<rparr>"

definition exampleMention :: LexicalNode where
  "exampleMention =
     (exampleNode MentionNode ''m'' None [])
       \<lparr> node_text := ''bob'', node_mention := ''bob'', node_mode := segmented,
         directionless := True \<rparr>"

definition exampleTable :: "NodeKey \<rightharpoonup> LexicalNode" where
  "exampleTable =
     [''root'' \<mapsto> exampleNode (OtherNode RootVariant ''root'') ''root'' None [''p''],
      ''p'' \<mapsto> exampleNode (OtherNode ElementVariant ''paragraph'') ''p'' (Some ''root'')
                 [''hr1'', ''t'', ''hr2''],
      ''hr1'' \<mapsto> exampleNode HorizontalRuleNode ''hr1'' (Some ''p'') [],
      ''t'' \<mapsto> exampleHashtag,
      ''hr2'' \<mapsto> exampleNode HorizontalRuleNode ''hr2'' (Some ''p'') []]"

definition exampleState :: EditorState where
  "exampleState =
     \<lparr> nodeMap = exampleTable, selection = Some (NodeSelection {''hr1'', ''hr2''}), version = 0 \<rparr>"

text \<open>The components of the two rules of the document, both rendered as selected.\<close>

definition exampleComponents :: "HorizontalRuleComponent list" where
  "exampleComponents =
     [\<lparr> nodeKey = ''hr1'', isSelected = True \<rparr>, \<lparr> nodeKey = ''hr2'', isSelected = True \<rparr>]"

text \<open>
  A mutator that removes the first horizontal rule and then throws, and an editor whose
  error callback appends the error to a list kept by the host.
\<close>

definition exampleMutator :: "Mutation list" where
  "exampleMutator =
     [LexicalNode_remove (exampleNode HorizontalRuleNode ''hr1'' (Some ''p'') []),
      throwError ''boom'']"

definition exampleEditor :: "(LexicalError list) LexicalEditor" where
  "exampleEditor = \<lparr> editorState = exampleState, onError = Some (\<lambda>e log. log @ [e]) \<rparr>"




section \<open>Properties of the node classes\<close>

lemmas constructor_defs = applyNodeReplacement_def LexicalNode_new_def TextNode_new_def
  ElementNode_new_def DecoratorNode_new_def HashtagNode_new_def MentionNode_new_def
  HorizontalRuleNode_new_def OverflowNode_new_def

lemma createMentionNode_plain:
  assumes "replacement ctx MentionNode = None"
  shows "createMentionNode ctx name =
     (TextNode_new ctx MentionNode name None)
       \<lparr> node_mention := name, node_mode := segmented, directionless := True \<rparr>"
  using assms
  by (simp add: createMentionNode_def setMode_def toggleDirectionless_def constructor_defs)

text \<open>
  C3. For every HashtagNode (for instance the one created from the text "#lexical"),
  \<^verbatim>\<open>isTextEntity()\<close> returns true and \<^verbatim>\<open>canInsertTextBefore()\<close> returns false, whatever
  the inherited implementations are.
\<close>

theorem hashtag_isTextEntity_canInsertTextBefore:
  "klass n = HashtagNode \<Longrightarrow> isTextEntity inh1 n \<and> \<not> canInsertTextBefore inh2 n"
  by (simp add: isTextEntity_def canInsertTextBefore_def HashtagNode_isTextEntity_def
      HashtagNode_canInsertTextBefore_def)

theorem hashtag_isTextEntity_canInsertTextBefore_witness:
  "klass (createHashtagNode plainContext ''#lexical'') = HashtagNode
   \<and> isTextEntity (\<lambda>n. False) (createHashtagNode plainContext ''#lexical'')
   \<and> \<not> canInsertTextBefore (\<lambda>n. True) (createHashtagNode plainContext ''#lexical'')"
proof -
  have h: "klass (createHashtagNode plainContext ''#lexical'') = HashtagNode"
    by (simp add: createHashtagNode_def plainContext_def constructor_defs)
  from hashtag_isTextEntity_canInsertTextBefore [OF h] h show ?thesis by simp
qed

text \<open>
  C9. For every OverflowNode, \<^verbatim>\<open>excludeFromCopy()\<close> returns true and the static
  \<^verbatim>\<open>importDOM()\<close> returns null: no element of an external document is converted by the
  class, and copied content never holds the node.
\<close>

theorem overflow_excludeFromCopy_importDOM:
  "klass n = OverflowNode \<Longrightarrow>
     excludeFromCopy inh n
     \<and> importDOM inhI (klass n) = None
     \<and> importElement inhI ctx (klass n) element = None
     \<and> n \<notin> set (copiedNodes inh nodes)"
  by (simp add: excludeFromCopy_def OverflowNode_excludeFromCopy_def importDOM_def
      OverflowNode_importDOM_def importElement_def copiedNodes_def)

theorem overflow_excludeFromCopy_importDOM_witness:
  "klass (createOverflowNode plainContext) = OverflowNode
   \<and> excludeFromCopy (\<lambda>n. False) (createOverflowNode plainContext)
   \<and> importDOM (\<lambda>k. None) OverflowNode = None
   \<and> importElement (\<lambda>k. None) plainContext OverflowNode (createElement ''span'') = None
   \<and> createOverflowNode plainContext
        \<notin> set (copiedNodes (\<lambda>n. False)
                 [createOverflowNode plainContext, createHashtagNode plainContext ''#a''])"
proof -
  have h: "klass (createOverflowNode plainContext) = OverflowNode"
    by (simp add: createOverflowNode_def plainContext_def constructor_defs)
  from overflow_excludeFromCopy_importDOM [OF h, of "\<lambda>n. False" "\<lambda>k. None" plainContext
      "createElement ''span''" "[createOverflowNode plainContext, createHashtagNode plainContext ''#a'']"]
    h show ?thesis by simp
qed

text \<open>
  C10. For every HorizontalRuleNode and every OverflowNode, \<^verbatim>\<open>updateDOM\<close> returns false for
  all inputs, so the reconciler never replaces the DOM element of such a node: when the
  node is in the previous and in the next Editor State, it updates in place.
\<close>

theorem updateDOM_false_never_replaced:
  "klass n = HorizontalRuleNode \<or> klass n = OverflowNode \<Longrightarrow>
     \<not> updateDOM inh n prevNode domElement
     \<and> (nextMap k = Some n \<longrightarrow> reconcileKey inh prevMap nextMap domElement k \<noteq> ReplaceDOM)
     \<and> (nextMap k = Some n \<and> prevMap k = Some prevNode \<longrightarrow>
          reconcileKey inh prevMap nextMap domElement k = UpdateInPlace)"
  by (auto simp: updateDOM_def HorizontalRuleNode_updateDOM_def OverflowNode_updateDOM_def
      reconcileKey_def split: option.splits)

theorem updateDOM_false_never_replaced_witness:
  "(klass (createHorizontalRuleNode plainContext) = HorizontalRuleNode
      \<or> klass (createHorizontalRuleNode plainContext) = OverflowNode)
   \<and> [''1'' \<mapsto> createHorizontalRuleNode plainContext] ''1'' = Some (createHorizontalRuleNode plainContext)
   \<and> \<not> updateDOM (\<lambda>n p d. True) (createHorizontalRuleNode plainContext)
          (createHorizontalRuleNode plainContext) (createElement ''hr'')
   \<and> reconcileKey (\<lambda>n p d. True) [''1'' \<mapsto> createHorizontalRuleNode plainContext]
        [''1'' \<mapsto> createHorizontalRuleNode plainContext] (createElement ''hr'') ''1'' = UpdateInPlace"
proof -
  have h: "klass (createHorizontalRuleNode plainContext) = HorizontalRuleNode
      \<or> klass (createHorizontalRuleNode plainContext) = OverflowNode"
    by (simp add: createHorizontalRuleNode_def plainContext_def constructor_defs)
  from updateDOM_false_never_replaced [OF h, of "\<lambda>n p d. True" "createHorizontalRuleNode plainContext"
      "createElement ''hr''" "[''1'' \<mapsto> createHorizontalRuleNode plainContext]" "''1''"
      "[''1'' \<mapsto> createHorizontalRuleNode plainContext]"]
    h show ?thesis by simp
qed

lemmas example_defs = plainContext_def replacingContext_def customReplacement_def
  exampleNode_def exampleHashtag_def exampleMention_def

text \<open>
  C1. For each of the four classes, when no replacement is registered for the class, the
  static \<^verbatim>\<open>clone(node)\<close> returns a node of the same class and type tag whose key is the
  original's, with the original's text for the two text classes and the original's mention
  name for a MentionNode. The condition is needed: the constructors end in
  \<^verbatim>\<open>$applyNodeReplacement(this)\<close>, so with a replacement registered \<^verbatim>\<open>clone\<close> returns the
  node the replacement builds, with a class and a key of its own, as the example after
  the witness shows.
\<close>

theorem clone_preserves_type_key_content:
  assumes "klass n \<in> {HashtagNode, MentionNode, HorizontalRuleNode, OverflowNode}"
    and "replacement ctx (klass n) = None"
  shows "klass (clone inh ctx n) = klass n
    \<and> node_type (clone inh ctx n) = getType (klass n)
    \<and> node_key (clone inh ctx n) = node_key n
    \<and> (klass n = HashtagNode \<or> klass n = MentionNode \<longrightarrow>
          node_text (clone inh ctx n) = node_text n)
    \<and> (klass n = MentionNode \<longrightarrow> node_mention (clone inh ctx n) = node_mention n)"
  using assms
  by (auto simp: clone_def HashtagNode_clone_def MentionNode_clone_def
      HorizontalRuleNode_clone_def OverflowNode_clone_def constructor_defs)

theorem clone_preserves_type_key_content_witness:
  "klass exampleMention \<in> {HashtagNode, MentionNode, HorizontalRuleNode, OverflowNode}
   \<and> replacement plainContext (klass exampleMention) = None
   \<and> klass (clone (\<lambda>ctx n. n) plainContext exampleMention) = MentionNode
   \<and> node_type (clone (\<lambda>ctx n. n) plainContext exampleMention) = ''mention''
   \<and> node_key (clone (\<lambda>ctx n. n) plainContext exampleMention) = ''m''
   \<and> node_text (clone (\<lambda>ctx n. n) plainContext exampleMention) = ''bob''
   \<and> node_mention (clone (\<lambda>ctx n. n) plainContext exampleMention) = ''bob''"
proof -
  have k: "klass exampleMention = MentionNode"
    by (simp add: example_defs LexicalNode_new_def)
  have h1: "klass exampleMention \<in> {HashtagNode, MentionNode, HorizontalRuleNode, OverflowNode}"
    by (simp add: k)
  have h2: "replacement plainContext (klass exampleMention) = None"
    by (simp add: plainContext_def)
  have v: "node_key exampleMention = ''m'' \<and> node_text exampleMention = ''bob''
     \<and> node_mention exampleMention = ''bob''"
    by (simp add: example_defs LexicalNode_new_def)
  from clone_preserves_type_key_content [OF h1 h2, of "\<lambda>ctx n. n"] h1 h2 k v
  show ?thesis by simp
qed

theorem clone_replaced_counterexample:
  "klass exampleHashtag = HashtagNode
   \<and> node_key exampleHashtag = ''t''
   \<and> node_key (clone (\<lambda>ctx n. n) replacingContext exampleHashtag) = ''2''
   \<and> klass (clone (\<lambda>ctx n. n) replacingContext exampleHashtag)
       = OtherNode TextVariant ''custom-hashtag''"
  by (simp add: clone_def HashtagNode_clone_def constructor_defs example_defs)

lemma createMentionNode_mode: "node_mode (createMentionNode ctx name) = segmented"
  by (simp add: createMentionNode_def Let_def setMode_def toggleDirectionless_def)

text \<open>
  C8. Every node \<^verbatim>\<open>$createMentionNode\<close> returns has text mode segmented and so is never
  merged with an adjacent text run; when no replacement is registered for MentionNode it
  is a MentionNode, it is directionless, and its mention name and its text are the
  \<^verbatim>\<open>mentionName\<close> argument. The condition is needed: with a replacement registered, the
  class, the text and the mention name are those of the node the replacement builds, as
  the example after the witness shows.
\<close>

theorem createMentionNode_segmented:
  "node_mode (createMentionNode ctx name) = segmented
   \<and> \<not> canMergeTextRuns compatible (createMentionNode ctx name) other
   \<and> \<not> canMergeTextRuns compatible other (createMentionNode ctx name)
   \<and> (replacement ctx MentionNode = None \<longrightarrow>
         klass (createMentionNode ctx name) = MentionNode
         \<and> directionless (createMentionNode ctx name)
         \<and> node_mention (createMentionNode ctx name) = name
         \<and> node_text (createMentionNode ctx name) = name)"
proof -
  have "replacement ctx MentionNode = None \<longrightarrow>
         klass (createMentionNode ctx name) = MentionNode
         \<and> directionless (createMentionNode ctx name)
         \<and> node_mention (createMentionNode ctx name) = name
         \<and> node_text (createMentionNode ctx name) = name"
    by (simp add: createMentionNode_plain TextNode_new_def LexicalNode_new_def)
  then show ?thesis
    by (simp add: createMentionNode_mode canMergeTextRuns_def)
qed

theorem createMentionNode_segmented_witness:
  "replacement plainContext MentionNode = None
   \<and> klass (createMentionNode plainContext ''bob'') = MentionNode
   \<and> node_mode (createMentionNode plainContext ''bob'') = segmented
   \<and> directionless (createMentionNode plainContext ''bob'')
   \<and> node_mention (createMentionNode plainContext ''bob'') = ''bob''
   \<and> node_text (createMentionNode plainContext ''bob'') = ''bob''
   \<and> \<not> canMergeTextRuns (\<lambda>a b. True) (createMentionNode plainContext ''bob'') exampleHashtag"
proof -
  have h: "replacement plainContext MentionNode = None"
    by (simp add: plainContext_def)
  from createMentionNode_segmented [of plainContext "''bob''" "\<lambda>a b. True" exampleHashtag] h
  show ?thesis by simp
qed

theorem createMentionNode_replaced_counterexample:
  "node_text (createMentionNode replacingContext ''bob'') = ''@bob''
   \<and> klass (createMentionNode replacingContext ''bob'') = OtherNode TextVariant ''custom-mention''"
  by (simp add: createMentionNode_def Let_def setMode_def toggleDirectionless_def
      constructor_defs example_defs)

lemma mention_roundtrip:
  assumes "klass n = MentionNode" and "replacement ctx MentionNode = None"
  shows "importElement inhI ctx (klass n) (exportDOM inhE n)
           = Some \<lparr> output_node = createMentionNode ctx (node_text n) \<rparr>"
  using assms
  by (simp add: importElement_def importDOM_def exportDOM_def MentionNode_importDOM_def
      MentionNode_exportDOM_def createElement_def setAttribute_def hasAttribute_def
      convertMentionElement_def)

lemma horizontalRule_roundtrip:
  assumes "klass n = HorizontalRuleNode"
  shows "importElement inhI ctx (klass n) (exportDOM inhE n)
           = Some \<lparr> output_node = createHorizontalRuleNode ctx \<rparr>"
  using assms
  by (simp add: importElement_def importDOM_def exportDOM_def HorizontalRuleNode_importDOM_def
      HorizontalRuleNode_exportDOM_def createElement_def convertHorizontalRuleElement_def)

lemma mention_exported:
  assumes "klass n = MentionNode"
  shows "tagName (exportDOM inhE n) = ''span''
     \<and> hasAttribute ''data-lexical-mention'' (exportDOM inhE n)
     \<and> textContent (exportDOM inhE n) = Some (node_text n)"
  using assms
  by (simp add: exportDOM_def MentionNode_exportDOM_def createElement_def setAttribute_def
      hasAttribute_def)

lemma horizontalRule_exported:
  assumes "klass n = HorizontalRuleNode"
  shows "tagName (exportDOM inhE n) = ''hr''"
  using assms
  by (simp add: exportDOM_def HorizontalRuleNode_exportDOM_def createElement_def)

text \<open>
  C2. For MentionNode and HorizontalRuleNode, when no replacement is registered for the
  class, the class's import conversion applied to the element \<^verbatim>\<open>exportDOM\<close> produces gives
  a node of the same class with the same text content: the text of the mention, the line
  break of the rule. The exported element of a mention is a span that carries the
  attribute \<^verbatim>\<open>data-lexical-mention\<close> and the node's text; that of a rule is an \<^verbatim>\<open>hr\<close>. The
  condition is needed: with a replacement registered, the imported node is the one the
  replacement builds, as the example after the witness shows.
\<close>

theorem import_export_roundtrip:
  assumes "klass n = MentionNode \<or> klass n = HorizontalRuleNode"
    and "replacement ctx (klass n) = None"
  shows "(\<exists>out. importElement inhI ctx (klass n) (exportDOM inhE n) = Some out
          \<and> klass (output_node out) = klass n
          \<and> (klass n = MentionNode \<longrightarrow> node_text (output_node out) = node_text n)
          \<and> (klass n = HorizontalRuleNode \<longrightarrow>
                HorizontalRuleNode_getTextContent (output_node out)
                  = HorizontalRuleNode_getTextContent n))
     \<and> (klass n = MentionNode \<longrightarrow>
          tagName (exportDOM inhE n) = ''span''
          \<and> hasAttribute ''data-lexical-mention'' (exportDOM inhE n)
          \<and> textContent (exportDOM inhE n) = Some (node_text n))
     \<and> (klass n = HorizontalRuleNode \<longrightarrow> tagName (exportDOM inhE n) = ''hr'')"
proof (intro conjI)
  from assms(1)
  show "\<exists>out. importElement inhI ctx (klass n) (exportDOM inhE n) = Some out
          \<and> klass (output_node out) = klass n
          \<and> (klass n = MentionNode \<longrightarrow> node_text (output_node out) = node_text n)
          \<and> (klass n = HorizontalRuleNode \<longrightarrow>
                HorizontalRuleNode_getTextContent (output_node out)
                  = HorizontalRuleNode_getTextContent n)"
  proof
    assume m: "klass n = MentionNode"
    with assms(2) have r: "replacement ctx MentionNode = None" by simp
    show ?thesis
      using m mention_roundtrip [OF m r, of inhI inhE] createMentionNode_plain [OF r, of "node_text n"]
      by (simp add: TextNode_new_def LexicalNode_new_def)
  next
    assume h: "klass n = HorizontalRuleNode"
    with assms(2) have r: "replacement ctx HorizontalRuleNode = None" by simp
    show ?thesis
      using h r horizontalRule_roundtrip [OF h, of inhI ctx inhE]
      by (simp add: createHorizontalRuleNode_def HorizontalRuleNode_getTextContent_def
          constructor_defs)
  qed
next
  show "klass n = MentionNode \<longrightarrow>
          tagName (exportDOM inhE n) = ''span''
          \<and> hasAttribute ''data-lexical-mention'' (exportDOM inhE n)
          \<and> textContent (exportDOM inhE n) = Some (node_text n)"
    by (rule impI) (erule mention_exported)
next
  show "klass n = HorizontalRuleNode \<longrightarrow> tagName (exportDOM inhE n) = ''hr''"
    by (rule impI) (erule horizontalRule_exported)
qed

theorem import_export_roundtrip_witness:
  "(klass exampleMention = MentionNode \<or> klass exampleMention = HorizontalRuleNode)
   \<and> replacement plainContext (klass exampleMention) = None
   \<and> map_option (\<lambda>out. (klass (output_node out), node_text (output_node out)))
        (importElement (\<lambda>k. None) plainContext MentionNode
           (exportDOM (\<lambda>n. createElement ''span'') exampleMention))
       = Some (MentionNode, ''bob'')
   \<and> node_text exampleMention = ''bob''
   \<and> hasAttribute ''data-lexical-mention'' (exportDOM (\<lambda>n. createElement ''span'') exampleMention)
   \<and> textContent (exportDOM (\<lambda>n. createElement ''span'') exampleMention) = Some ''bob''"
proof -
  have k: "klass exampleMention = MentionNode"
    by (simp add: example_defs LexicalNode_new_def)
  have t: "node_text exampleMention = ''bob''"
    by (simp add: example_defs LexicalNode_new_def)
  have h1: "klass exampleMention = MentionNode \<or> klass exampleMention = HorizontalRuleNode"
    by (simp add: k)
  have h2: "replacement plainContext (klass exampleMention) = None"
    by (simp add: plainContext_def)
  note T = import_export_roundtrip [OF h1 h2, of "\<lambda>k. None" "\<lambda>n. createElement ''span''"]
  from T [THEN conjunct1]
  obtain out where
    "importElement (\<lambda>k. None) plainContext (klass exampleMention)
        (exportDOM (\<lambda>n. createElement ''span'') exampleMention) = Some out"
    "klass (output_node out) = klass exampleMention"
    "klass exampleMention = MentionNode \<longrightarrow> node_text (output_node out) = node_text exampleMention"
    by blast
  with k t have r: "map_option (\<lambda>out. (klass (output_node out), node_text (output_node out)))
        (importElement (\<lambda>k. None) plainContext MentionNode
           (exportDOM (\<lambda>n. createElement ''span'') exampleMention))
       = Some (MentionNode, ''bob'')"
    by simp
  from T [THEN conjunct2, THEN conjunct1] k t
  have e: "hasAttribute ''data-lexical-mention'' (exportDOM (\<lambda>n. createElement ''span'') exampleMention)
     \<and> textContent (exportDOM (\<lambda>n. createElement ''span'') exampleMention) = Some ''bob''"
    by simp
  show ?thesis
    by (intro conjI) (fact h1, fact h2, fact r, fact t, fact e [THEN conjunct1], fact e [THEN conjunct2])
qed

theorem import_export_replaced_counterexample:
  "klass exampleMention = MentionNode
   \<and> node_text exampleMention = ''bob''
   \<and> map_option (\<lambda>out. (klass (output_node out), node_text (output_node out)))
        (importElement (\<lambda>k. None) replacingContext MentionNode
           (exportDOM (\<lambda>n. createElement ''span'') exampleMention))
       = Some (OtherNode TextVariant ''custom-mention'', ''@bob'')"
  by (simp add: importElement_def importDOM_def exportDOM_def MentionNode_importDOM_def
      MentionNode_exportDOM_def createElement_def setAttribute_def hasAttribute_def
      convertMentionElement_def createMentionNode_def Let_def setMode_def
      toggleDirectionless_def constructor_defs example_defs)

section \<open>Properties of command dispatch\<close>

lemma fold_max_ge: "(a::nat) \<le> fold max xs a"
proof (induction xs arbitrary: a)
  case Nil
  show ?case by simp
next
  case (Cons x xs)
  have "a \<le> max x a" by simp
  also have "max x a \<le> fold max xs (max x a)" by (rule Cons.IH)
  finally show ?case by simp
qed

lemma fold_max_mem: "(x::nat) \<in> set xs \<Longrightarrow> x \<le> fold max xs a"
proof (induction xs arbitrary: a)
  case Nil
  then show ?case by simp
next
  case (Cons y ys)
  show ?case
  proof (cases "x = y")
    case True
    have "y \<le> max y a" by simp
    also have "max y a \<le> fold max ys (max y a)" by (rule fold_max_ge)
    finally show ?thesis using True by simp
  next
    case False
    with Cons.prems have "x \<in> set ys" by simp
    then show ?thesis by (simp add: Cons.IH)
  qed
qed

lemma highestPriority_bound: "r \<in> set rs \<Longrightarrow> reg_priority r \<le> highestPriority rs"
  unfolding highestPriority_def by (rule fold_max_mem) simp

lemma atOrBelow_set: "set (listenersAtOrBelow i rs) = {r \<in> set rs. reg_priority r \<le> i}"
  by (induction i) (auto simp: le_Suc_eq)



lemma atOrBelow_filter:
  "filter (\<lambda>r. reg_priority r = q) (listenersAtOrBelow i rs) =
     (if q \<le> i then filter (\<lambda>r. reg_priority r = q) rs else [])"
proof (induction i)
  case 0
  show ?case by (auto intro: filter_cong simp: filter_empty_conv)
next
  case (Suc i)
  have "filter (\<lambda>r. reg_priority r = q) (filter (\<lambda>r. reg_priority r = Suc i) rs)
        = (if q = Suc i then filter (\<lambda>r. reg_priority r = q) rs else [])"
    by (auto intro: filter_cong simp: filter_empty_conv)
  with Suc show ?case by (auto simp: le_Suc_eq)
qed

lemma inOrder_filter:
  "filter (\<lambda>r. reg_priority r = q) (listenersInOrder rs) = filter (\<lambda>r. reg_priority r = q) rs"
proof (cases "q \<le> highestPriority rs")
  case True
  then show ?thesis by (simp add: listenersInOrder_def atOrBelow_filter)
next
  case False
  then have "\<forall>r \<in> set rs. reg_priority r \<noteq> q" using highestPriority_bound by fastforce
  then have "filter (\<lambda>r. reg_priority r = q) rs = []" by (simp add: filter_empty_conv)
  with False show ?thesis by (simp add: listenersInOrder_def atOrBelow_filter)
qed



lemma trigger_continue:
  "reg_listener r p s = (Inr False, p', s') \<Longrightarrow>
     triggerCommandListeners (r # rs) p s =
       ((reg_id r, False) # fst (triggerCommandListeners rs p' s'),
        snd (triggerCommandListeners rs p' s'))"
  by (simp split: prod.splits)






lemma runAll_step:
  "reg_listener r p s = (res, p', s') \<Longrightarrow> runAll (r # rs) p s = runAll rs p' s'"
  by simp












section \<open>Properties of transactions and moves\<close>

lemma exampleTable_lookup:
  "exampleTable ''root'' = Some (exampleNode (OtherNode RootVariant ''root'') ''root'' None [''p''])"
  "exampleTable ''p'' = Some (exampleNode (OtherNode ElementVariant ''paragraph'') ''p''
                               (Some ''root'') [''hr1'', ''t'', ''hr2''])"
  "exampleTable ''hr1'' = Some (exampleNode HorizontalRuleNode ''hr1'' (Some ''p'') [])"
  "exampleTable ''t'' = Some exampleHashtag"
  "exampleTable ''hr2'' = Some (exampleNode HorizontalRuleNode ''hr2'' (Some ''p'') [])"
  by (simp_all add: exampleTable_def)

text \<open>
  C6. For every transaction whose mutator throws, the editor is as it was before the
  update: the working table is discarded and the prior Editor State is still the current
  one, whatever the mutator did before the throw; the error goes to the configured error
  callback, and to the host when none is configured.
\<close>

theorem update_throw_keeps_prior_state:
  assumes "fst (runMutator mutatorFn (editorState editor)) = Some e"
  shows "fst (update editor mutatorFn host) = editor
     \<and> editorState (fst (update editor mutatorFn host)) = editorState editor
     \<and> (\<forall>callback. onError editor = Some callback \<longrightarrow>
           snd (update editor mutatorFn host) = (callback e host, None))
     \<and> (onError editor = None \<longrightarrow> snd (update editor mutatorFn host) = (host, Some e))"
  using assms by (auto simp: update_def split: prod.splits option.splits)

lemma exampleMutator_run:
  "fst (runMutator exampleMutator exampleState) = Some (HostError ''boom'')
   \<and> nodeMap (snd (runMutator exampleMutator exampleState)) ''hr1'' = None"
  by (simp add: exampleMutator_def exampleState_def LexicalNode_remove_def throwError_def
      exampleNode_def LexicalNode_new_def exampleTable_lookup)

theorem update_throw_keeps_prior_state_witness:
  "fst (runMutator exampleMutator (editorState exampleEditor)) = Some (HostError ''boom'')
   \<and> nodeMap (snd (runMutator exampleMutator (editorState exampleEditor))) ''hr1'' = None
   \<and> nodeMap (editorState (fst (update exampleEditor exampleMutator []))) ''hr1'' \<noteq> None
   \<and> fst (update exampleEditor exampleMutator []) = exampleEditor
   \<and> snd (update exampleEditor exampleMutator []) = ([HostError ''boom''], None)"
proof -
  have s: "editorState exampleEditor = exampleState"
    by (simp add: exampleEditor_def)
  have h: "fst (runMutator exampleMutator (editorState exampleEditor)) = Some (HostError ''boom'')"
    by (simp add: s exampleMutator_run)
  have w: "nodeMap (snd (runMutator exampleMutator (editorState exampleEditor))) ''hr1'' = None"
    by (simp add: s exampleMutator_run)
  have c: "onError exampleEditor = Some (\<lambda>e log. log @ [e])"
    by (simp add: exampleEditor_def)
  note t = update_throw_keeps_prior_state [OF h, of "[]"]
  from t have 1: "fst (update exampleEditor exampleMutator []) = exampleEditor" by blast
  from t c have 2: "snd (update exampleEditor exampleMutator []) = ([HostError ''boom''], None)"
    by simp
  have 3: "nodeMap (editorState (fst (update exampleEditor exampleMutator []))) ''hr1'' \<noteq> None"
    by (simp add: 1 s exampleState_def exampleTable_lookup)
  show ?thesis
    by (intro conjI) (fact h, fact w, fact 3, fact 1, fact 2)
qed

lemma walk_finds_ancestor:
  "descendantOrSelf tbl k a \<Longrightarrow> isSelfOrAncestorOf tbl a k = Some True"
proof (induction rule: descendantOrSelf.induct)
  case (self k)
  show ?case by (subst isSelfOrAncestorOf.simps) simp
next
  case (child k n p a)
  then show ?case by (subst isSelfOrAncestorOf.simps) simp
qed

lemma descendant_in_table:
  "descendantOrSelf tbl t k \<Longrightarrow> tbl k \<noteq> None \<Longrightarrow> tbl t \<noteq> None"
  by (erule descendantOrSelf.cases) auto

text \<open>
  C7. For every structural move (append to a node, insert after or before a node) of a node
  of the working table whose target is a descendant of the moved node or the moved node
  itself, the operation returns, it fails with InvalidMoveError, and the state is the state
  before the operation.
\<close>

theorem move_into_descendant_fails:
  assumes "nodeMap st k \<noteq> None"
    and "descendantOrSelf (nodeMap st) (anchorKey tgt) k"
  shows "moveNode k tgt st = Some (Some InvalidMoveError, st)"
proof -
  from assms(1) obtain moved where m: "nodeMap st k = Some moved" by auto
  from descendant_in_table [OF assms(2) assms(1)]
  obtain anchorNode where a: "nodeMap st (anchorKey tgt) = Some anchorNode" by auto
  from walk_finds_ancestor [OF assms(2)] m a show ?thesis
    by (simp add: moveNode_def)
qed

theorem move_into_descendant_fails_witness:
  "nodeMap exampleState ''p'' \<noteq> None
   \<and> descendantOrSelf (nodeMap exampleState) (anchorKey (InsertAfter ''t'')) ''p''
   \<and> moveNode ''p'' (InsertAfter ''t'') exampleState = Some (Some InvalidMoveError, exampleState)
   \<and> nodeMap exampleState ''root'' \<noteq> None
   \<and> descendantOrSelf (nodeMap exampleState) (anchorKey (AppendTo ''root'')) ''root''
   \<and> moveNode ''root'' (AppendTo ''root'') exampleState = Some (Some InvalidMoveError, exampleState)"
proof -
  have h1: "nodeMap exampleState ''p'' \<noteq> None"
    by (simp add: exampleState_def exampleTable_lookup)
  have "descendantOrSelf exampleTable ''t'' ''p''"
    by (rule descendantOrSelf.child [where n = exampleHashtag and p = "''p''"])
      (simp_all add: exampleTable_lookup exampleHashtag_def exampleNode_def
        descendantOrSelf.self)
  then have h2: "descendantOrSelf (nodeMap exampleState) (anchorKey (InsertAfter ''t'')) ''p''"
    by (simp add: exampleState_def)
  have h3: "nodeMap exampleState ''root'' \<noteq> None"
    by (simp add: exampleState_def exampleTable_lookup)
  have h4: "descendantOrSelf (nodeMap exampleState) (anchorKey (AppendTo ''root'')) ''root''"
    by (simp add: descendantOrSelf.self)
  show ?thesis
    by (intro conjI)
      (fact h1, fact h2, fact move_into_descendant_fails [OF h1 h2], fact h3, fact h4,
       fact move_into_descendant_fails [OF h3 h4])
qed

text \<open>A move that is allowed: the first rule goes behind the second.\<close>

lemma exampleMove_allowed:
  "map_option fst (moveNode ''hr1'' (InsertAfter ''hr2'') exampleState) = Some None
   \<and> map_option (\<lambda>r. map_option node_children (nodeMap (snd r) ''p''))
        (moveNode ''hr1'' (InsertAfter ''hr2'') exampleState)
       = Some (Some [''t'', ''hr2'', ''hr1''])"
proof -
  have w: "isSelfOrAncestorOf exampleTable ''hr1'' ''hr2'' = Some False"
    apply (subst isSelfOrAncestorOf.simps)
    apply (simp add: exampleTable_lookup exampleNode_def)
    apply (subst isSelfOrAncestorOf.simps)
    apply (simp add: exampleTable_lookup exampleNode_def)
    apply (subst isSelfOrAncestorOf.simps)
    apply (simp add: exampleTable_lookup exampleNode_def)
    done
  show ?thesis
    by (simp add: moveNode_def exampleState_def w exampleTable_lookup exampleNode_def
        LexicalNode_new_def relocate_def detachFromParent_def)
qed

section \<open>Deleting selected horizontal rules\<close>

lemma withoutChildren_fields:
  "klass (withoutChildren D n) = klass n"
  "node_key (withoutChildren D n) = node_key n"
  "node_parent (withoutChildren D n) = node_parent n"
  "node_children (withoutChildren D n) = filter (\<lambda>c. c \<notin> D) (node_children n)"
  by (simp_all add: withoutChildren_def)

lemma withoutChildren_id:
  "D \<inter> set (node_children n) = {} \<Longrightarrow> withoutChildren D n = n"
proof -
  assume "D \<inter> set (node_children n) = {}"
  then have "filter (\<lambda>c. c \<notin> D) (node_children n) = node_children n"
    by (auto simp: filter_id_conv)
  then show ?thesis by (simp add: withoutChildren_def)
qed

lemma removeAll_as_filter: "removeAll k xs = filter (\<lambda>c. c \<notin> {k}) xs"
  by (induction xs) auto

lemma withoutChildren_twice:
  "withoutChildren A (withoutChildren B n) = withoutChildren (A \<union> B) n"
  by (simp add: withoutChildren_def conj_commute)

lemma evictKeys_twice: "evictKeys A (evictKeys B tbl) = evictKeys (A \<union> B) tbl"
  by (rule ext) (auto simp: evictKeys_def withoutChildren_twice option.map_comp comp_def
      split: option.splits)

lemma evictKeys_empty: "evictKeys {} tbl = tbl"
proof (rule ext)
  fix k
  show "evictKeys {} tbl k = tbl k"
    by (cases "tbl k") (simp_all add: evictKeys_def withoutChildren_id)
qed

lemma keysAgree_evict: "keysAgree tbl \<Longrightarrow> keysAgree (evictKeys D tbl)"
  by (auto simp: keysAgree_def evictKeys_def withoutChildren_fields split: if_splits)

lemma childrenHaveParent_evict:
  assumes "childrenHaveParent tbl"
  shows "childrenHaveParent (evictKeys D tbl)"
  unfolding childrenHaveParent_def
proof (intro allI impI)
  fix p parentNode c
  assume a: "evictKeys D tbl p = Some parentNode \<and> c \<in> set (node_children parentNode)"
  then obtain pn where pn: "tbl p = Some pn" "parentNode = withoutChildren D pn" "p \<notin> D"
    by (auto simp: evictKeys_def split: if_splits)
  with a have c: "c \<in> set (node_children pn)" "c \<notin> D"
    by (auto simp: withoutChildren_fields)
  with assms pn obtain child where "tbl c = Some child" "node_parent child = Some p"
    unfolding childrenHaveParent_def by blast
  with c show "\<exists>child. evictKeys D tbl c = Some child \<and> node_parent child = Some p"
    by (simp add: evictKeys_def withoutChildren_fields)
qed

lemma not_a_child:
  assumes "childrenHaveParent tbl" and "tbl k = Some n" and "tbl k' = Some n'"
    and "node_parent n \<noteq> Some k'"
  shows "k \<notin> set (node_children n')"
proof
  assume "k \<in> set (node_children n')"
  with assms(1,3) obtain child where "tbl k = Some child" "node_parent child = Some k'"
    unfolding childrenHaveParent_def by blast
  with assms(2,4) show False by simp
qed

lemma detach_is_evict:
  assumes "childrenHaveParent tbl" and "tbl k = Some n"
  shows "(detachFromParent tbl k n)(k := None) = evictKeys {k} tbl"
proof (rule ext)
  fix k'
  show "((detachFromParent tbl k n)(k := None)) k' = evictKeys {k} tbl k'"
  proof (cases "k' = k")
    case True
    then show ?thesis by (simp add: evictKeys_def)
  next
    case other: False
    show ?thesis
    proof (cases "tbl k'")
      case None
      with other show ?thesis
        by (auto simp: evictKeys_def detachFromParent_def split: option.splits)
    next
      case (Some n')
      show ?thesis
      proof (cases "node_parent n = Some k'")
        case True
        have "removeAll k (node_children n') = filter (\<lambda>c. c \<notin> {k}) (node_children n')"
          by (rule removeAll_as_filter)
        with True other Some show ?thesis
          by (simp add: evictKeys_def detachFromParent_def withoutChildren_def)
      next
        case False
        from not_a_child [OF assms Some False]
        have "withoutChildren {k} n' = n'" by (simp add: withoutChildren_id)
        with other Some False show ?thesis
          by (auto simp: evictKeys_def detachFromParent_def split: option.splits)
      qed
    qed
  qed
qed

lemma remove_is_evict:
  assumes "keysAgree tbl" and "childrenHaveParent tbl" and "nodeMap st = tbl"
    and "tbl k = Some n"
  shows "LexicalNode_remove n st = (None, st \<lparr> nodeMap := evictKeys {k} tbl \<rparr>)"
proof -
  from assms(1,4) have "node_key n = k" by (simp add: keysAgree_def)
  with assms(3,4) detach_is_evict [OF assms(2,4)] show ?thesis
    by (simp add: LexicalNode_remove_def)
qed

lemma onDelete_selected:
  assumes "isSelected c" and "selection st = Some (NodeSelection S)"
    and "keysAgree (nodeMap st)" and "childrenHaveParent (nodeMap st)"
    and "isHorizontalRuleNode (nodeMap st (nodeKey c))"
  shows "onDelete c ev st =
     (Inr False, ev \<lparr> defaultPrevented := True \<rparr>,
      st \<lparr> nodeMap := evictKeys {nodeKey c} (nodeMap st),
           selection := Some (NodeSelection (S - {nodeKey c})) \<rparr>)"
proof -
  from assms(5) obtain n where n: "nodeMap st (nodeKey c) = Some n"
    by (auto simp: isHorizontalRuleNode_def split: option.splits)
  from remove_is_evict [OF assms(3,4) refl n]
  have "LexicalNode_remove n st = (None, st \<lparr> nodeMap := evictKeys {nodeKey c} (nodeMap st) \<rparr>)" .
  with assms(1,2,5) n show ?thesis
    by (simp add: onDelete_def isNodeSelection_def getSelection_def getNodeByKey_def
        preventDefault_def setSelected_def Let_def)
qed

lemma onDelete_not_selected:
  "\<not> isSelected c \<Longrightarrow> onDelete c ev st = (Inr False, ev, st)"
  by (simp add: onDelete_def)

lemma onDelete_chain:
  assumes "map reg_listener rs = map onDelete comps"
    and "selection st = Some (NodeSelection S)"
    and "keysAgree (nodeMap st)" and "childrenHaveParent (nodeMap st)"
    and "distinct (map nodeKey comps)"
    and "\<forall>c \<in> set comps. isSelected c = (nodeKey c \<in> S)
                         \<and> isHorizontalRuleNode (nodeMap st (nodeKey c))"
  shows "snd (triggerCommandListeners rs ev st) =
     (Inr False,
      ev \<lparr> defaultPrevented := defaultPrevented ev \<or> S \<inter> nodeKey ` set comps \<noteq> {} \<rparr>,
      st \<lparr> nodeMap := evictKeys (S \<inter> nodeKey ` set comps) (nodeMap st),
           selection := Some (NodeSelection (S - nodeKey ` set comps)) \<rparr>)"
  using assms
proof (induction comps arbitrary: rs st S ev)
  case Nil
  then show ?case by (simp add: evictKeys_empty)
next
  case (Cons c comps)
  from Cons.prems(1) obtain r rs' where rs: "rs = r # rs'" "reg_listener r = onDelete c"
    "map reg_listener rs' = map onDelete comps"
    by (cases rs) auto
  let ?K = "nodeKey ` set comps"
  from Cons.prems(5) have fresh: "nodeKey c \<notin> ?K" and dist: "distinct (map nodeKey comps)"
    by auto
  show ?case
  proof (cases "isSelected c")
    case False
    with Cons.prems(6) have out: "nodeKey c \<notin> S" by simp
    from False rs have step: "reg_listener r ev st = (Inr False, ev, st)"
      by (simp add: onDelete_not_selected)
    from Cons.prems(6) have rest: "\<forall>c \<in> set comps. isSelected c = (nodeKey c \<in> S)
        \<and> isHorizontalRuleNode (nodeMap st (nodeKey c))" by simp
    from out have "S \<inter> nodeKey ` set (c # comps) = S \<inter> ?K"
      and "S - nodeKey ` set (c # comps) = S - ?K" by auto
    with Cons.IH [OF rs(3) Cons.prems(2,3,4) dist rest, of ev] step rs(1)
    show ?thesis by (simp only: trigger_continue) simp
  next
    case True
    with Cons.prems(6) have sel: "nodeKey c \<in> S" by simp
    from Cons.prems(6) have hr: "isHorizontalRuleNode (nodeMap st (nodeKey c))" by simp
    let ?st = "st \<lparr> nodeMap := evictKeys {nodeKey c} (nodeMap st),
                    selection := Some (NodeSelection (S - {nodeKey c})) \<rparr>"
    let ?ev = "ev \<lparr> defaultPrevented := True \<rparr>"
    from onDelete_selected [OF True Cons.prems(2,3,4) hr, of ev] rs
    have step: "reg_listener r ev st = (Inr False, ?ev, ?st)" by simp
    have s1: "selection ?st = Some (NodeSelection (S - {nodeKey c}))" by simp
    have k1: "keysAgree (nodeMap ?st)" using Cons.prems(3) by (simp add: keysAgree_evict)
    have c1: "childrenHaveParent (nodeMap ?st)"
      using Cons.prems(4) by (simp add: childrenHaveParent_evict)
    have rest: "\<forall>d \<in> set comps. isSelected d = (nodeKey d \<in> S - {nodeKey c})
        \<and> isHorizontalRuleNode (nodeMap ?st (nodeKey d))"
    proof
      fix d assume d: "d \<in> set comps"
      from d have "nodeKey d \<in> nodeKey ` set comps" by (rule imageI)
      with fresh have ne: "nodeKey d \<noteq> nodeKey c" by auto
      from d Cons.prems(6) have "isSelected d = (nodeKey d \<in> S)"
        and "isHorizontalRuleNode (nodeMap st (nodeKey d))" by simp_all
      with ne show "isSelected d = (nodeKey d \<in> S - {nodeKey c})
        \<and> isHorizontalRuleNode (nodeMap ?st (nodeKey d))"
        by (auto simp: isHorizontalRuleNode_def evictKeys_def withoutChildren_fields
            split: option.splits)
    qed
    from sel fresh have e1: "(S - {nodeKey c}) \<inter> ?K \<union> {nodeKey c} = S \<inter> nodeKey ` set (c # comps)"
      and e2: "S - {nodeKey c} - ?K = S - nodeKey ` set (c # comps)"
      and e3: "S \<inter> nodeKey ` set (c # comps) \<noteq> {}" by auto
    define D where "D = S \<inter> nodeKey ` set (c # comps)"
    define R where "R = S - nodeKey ` set (c # comps)"
    have B: "evictKeys ((S - {nodeKey c}) \<inter> ?K) (evictKeys {nodeKey c} (nodeMap st))
               = evictKeys D (nodeMap st)"
      unfolding D_def by (simp only: evictKeys_twice e1)
    have C: "S - {nodeKey c} - ?K = R"
      unfolding R_def by (rule e2)
    from e3 have E: "D \<noteq> {}" unfolding D_def .
    from Cons.IH [OF rs(3) s1 k1 c1 dist rest, of ?ev]
    have "snd (triggerCommandListeners rs' ?ev ?st) =
       (Inr False, ev \<lparr> defaultPrevented := True \<rparr>,
        st \<lparr> nodeMap := evictKeys D (nodeMap st), selection := Some (NodeSelection R) \<rparr>)"
      by (simp add: B C)
    with step rs(1) E
    have "snd (triggerCommandListeners rs ev st) =
       (Inr False, ev \<lparr> defaultPrevented := defaultPrevented ev \<or> D \<noteq> {} \<rparr>,
        st \<lparr> nodeMap := evictKeys D (nodeMap st), selection := Some (NodeSelection R) \<rparr>)"
      by (simp only: trigger_continue) simp
    then show ?thesis unfolding D_def R_def .
  qed
qed

lemma inOrder_same_priority:
  assumes "\<forall>r \<in> set rs. reg_priority r = q"
  shows "listenersInOrder rs = rs"
proof -
  have "set (listenersInOrder rs) \<subseteq> set rs"
    by (auto simp: listenersInOrder_def atOrBelow_set)
  with assms have "\<forall>r \<in> set (listenersInOrder rs). reg_priority r = q" by blast
  then have "filter (\<lambda>r. reg_priority r = q) (listenersInOrder rs) = listenersInOrder rs"
    by (simp add: filter_id_conv)
  moreover from assms have "filter (\<lambda>r. reg_priority r = q) rs = rs"
    by (simp add: filter_id_conv)
  ultimately show ?thesis using inOrder_filter [of q rs] by simp
qed

lemma register_component_listeners:
  assumes "ty = KEY_DELETE_COMMAND \<or> ty = KEY_BACKSPACE_COMMAND"
  shows "map reg_listener (listeners (registerHorizontalRuleComponent c registry) ty)
           = map reg_listener (listeners registry ty) @ [onDelete c]"
    and "map reg_priority (listeners (registerHorizontalRuleComponent c registry) ty)
           = map reg_priority (listeners registry ty) @ [COMMAND_PRIORITY_LOW]"
  using assms
  by (auto simp: registerHorizontalRuleComponent_def registerCommand_def Let_def)

lemma mount_listeners:
  assumes "ty = KEY_DELETE_COMMAND \<or> ty = KEY_BACKSPACE_COMMAND"
  shows "map reg_listener (listeners (fold registerHorizontalRuleComponent comps registry) ty)
           = map reg_listener (listeners registry ty) @ map onDelete comps
         \<and> map reg_priority (listeners (fold registerHorizontalRuleComponent comps registry) ty)
           = map reg_priority (listeners registry ty) @ replicate (length comps) COMMAND_PRIORITY_LOW"
proof (induction comps arbitrary: registry)
  case Nil
  show ?case by simp
next
  case (Cons c comps)
  from Cons [of "registerHorizontalRuleComponent c registry"]
    register_component_listeners [OF assms, of c registry]
  show ?case by (simp add: replicate_append_same)
qed

lemma mounted_delete_listeners:
  assumes "ty = KEY_DELETE_COMMAND \<or> ty = KEY_BACKSPACE_COMMAND"
  shows "map reg_listener (listenersInOrder (listeners (mountHorizontalRules comps) ty))
           = map onDelete comps"
proof -
  let ?rs = "listeners (mountHorizontalRules comps) ty"
  from mount_listeners [OF assms, of comps emptyRegistry]
  have l: "map reg_listener ?rs = map onDelete comps"
    and p: "map reg_priority ?rs = replicate (length comps) COMMAND_PRIORITY_LOW"
    by (simp_all add: mountHorizontalRules_def emptyRegistry_def)
  have "\<forall>r \<in> set ?rs. reg_priority r = COMMAND_PRIORITY_LOW"
  proof
    fix r assume "r \<in> set ?rs"
    then have "reg_priority r \<in> set (map reg_priority ?rs)" by simp
    with p show "reg_priority r = COMMAND_PRIORITY_LOW" by simp
  qed
  then have "listenersInOrder ?rs = ?rs" by (rule inOrder_same_priority)
  with l show ?thesis by simp
qed

lemma dispatch_delete_mounted:
  assumes "ty = KEY_DELETE_COMMAND \<or> ty = KEY_BACKSPACE_COMMAND"
    and "selection st = Some (NodeSelection S)"
    and "keysAgree (nodeMap st)" and "childrenHaveParent (nodeMap st)"
    and "distinct (map nodeKey comps)"
    and "\<forall>c \<in> set comps. isSelected c = (nodeKey c \<in> S)
                         \<and> isHorizontalRuleNode (nodeMap st (nodeKey c))"
  shows "dispatchCommand (mountHorizontalRules comps) ty ev st =
     (Inr False,
      ev \<lparr> defaultPrevented := defaultPrevented ev \<or> S \<inter> nodeKey ` set comps \<noteq> {} \<rparr>,
      st \<lparr> nodeMap := evictKeys (S \<inter> nodeKey ` set comps) (nodeMap st),
           selection := Some (NodeSelection (S - nodeKey ` set comps)) \<rparr>)"
  unfolding dispatchCommand_def
  by (rule onDelete_chain [OF mounted_delete_listeners [OF assms(1)] assms(2-6)])

text \<open>
  How two rules come to be selected: with the first rule selected, a click on the second
  with the shift key held adds it to the Node-selection, and the click is handled.
\<close>

lemma shift_click_selects_both:
  "onClick \<lparr> nodeKey = ''hr2'', isSelected = False \<rparr>
     \<lparr> target = Some ''hr2'', shiftKey = True, defaultPrevented = False \<rparr>
     (exampleState \<lparr> selection := Some (NodeSelection {''hr1''}) \<rparr>)
   = (Inr True, \<lparr> target = Some ''hr2'', shiftKey = True, defaultPrevented = False \<rparr>,
      exampleState)"
  by (simp add: onClick_def setSelected_def exampleState_def insert_commute)

lemma exampleTable_invariants: "keysAgree exampleTable \<and> childrenHaveParent exampleTable"
  by (auto simp: keysAgree_def childrenHaveParent_def exampleTable_def exampleNode_def
      exampleHashtag_def LexicalNode_new_def split: if_splits)

lemma exampleComponents_selected:
  "distinct (map nodeKey exampleComponents)
   \<and> (\<forall>c \<in> set exampleComponents. isSelected c = (nodeKey c \<in> {''hr1'', ''hr2''})
         \<and> isHorizontalRuleNode (nodeMap exampleState (nodeKey c)))"
  by (simp add: exampleComponents_def exampleState_def exampleTable_lookup
      isHorizontalRuleNode_def exampleNode_def LexicalNode_new_def)

text \<open>
  C4. When the components of horizontal rules are mounted and a Node-selection is current,
  dispatching a delete or a backspace command removes every selected rule, each by the
  listener of its own component: the entries of the selected rules leave the node table,
  every other entry stays and keeps its class, key, parent and content (a child list
  loses the removed keys), the keys of the rules leave the selection, and no listener
  handles the command. A selected rule is removed alone when it is the only rule selected;
  with a second rule selected the same dispatch removes that one too, as the example
  after the witness shows.
\<close>

theorem delete_removes_selected_horizontal_rules:
  assumes "ty = KEY_DELETE_COMMAND \<or> ty = KEY_BACKSPACE_COMMAND"
    and "selection st = Some (NodeSelection S)"
    and "keysAgree (nodeMap st)" and "childrenHaveParent (nodeMap st)"
    and "distinct (map nodeKey comps)"
    and "\<forall>c \<in> set comps. isSelected c = (nodeKey c \<in> S)
                         \<and> isHorizontalRuleNode (nodeMap st (nodeKey c))"
  shows "fst (dispatchCommand (mountHorizontalRules comps) ty ev st) = Inr False
     \<and> nodeMap (snd (snd (dispatchCommand (mountHorizontalRules comps) ty ev st)))
         = evictKeys (S \<inter> nodeKey ` set comps) (nodeMap st)
     \<and> (\<forall>c \<in> set comps. nodeKey c \<in> S \<longrightarrow>
           nodeMap (snd (snd (dispatchCommand (mountHorizontalRules comps) ty ev st))) (nodeKey c)
             = None)
     \<and> (\<forall>k. k \<notin> S \<inter> nodeKey ` set comps \<longrightarrow>
           nodeMap (snd (snd (dispatchCommand (mountHorizontalRules comps) ty ev st))) k
             = map_option (withoutChildren (S \<inter> nodeKey ` set comps)) (nodeMap st k))
     \<and> selection (snd (snd (dispatchCommand (mountHorizontalRules comps) ty ev st)))
         = Some (NodeSelection (S - nodeKey ` set comps))
     \<and> (S \<inter> nodeKey ` set comps = {k0} \<longrightarrow>
           nodeMap (snd (snd (dispatchCommand (mountHorizontalRules comps) ty ev st)))
             = evictKeys {k0} (nodeMap st))"
proof -
  let ?D = "S \<inter> nodeKey ` set comps"
  let ?st = "st \<lparr> nodeMap := evictKeys ?D (nodeMap st),
                  selection := Some (NodeSelection (S - nodeKey ` set comps)) \<rparr>"
  let ?ev = "ev \<lparr> defaultPrevented := defaultPrevented ev \<or> ?D \<noteq> {} \<rparr>"
  have d: "dispatchCommand (mountHorizontalRules comps) ty ev st = (Inr False, ?ev, ?st)"
    by (rule dispatch_delete_mounted [OF assms])
  have 0: "fst (dispatchCommand (mountHorizontalRules comps) ty ev st) = Inr False"
    by (simp only: d fst_conv)
  have s: "snd (snd (dispatchCommand (mountHorizontalRules comps) ty ev st)) = ?st"
    by (simp only: d snd_conv)
  have 1: "nodeMap ?st = evictKeys ?D (nodeMap st)" by simp
  have 2: "\<forall>c \<in> set comps. nodeKey c \<in> S \<longrightarrow> nodeMap ?st (nodeKey c) = None"
    by (simp add: evictKeys_def)
  have 3: "\<forall>k. k \<notin> ?D \<longrightarrow> nodeMap ?st k = map_option (withoutChildren ?D) (nodeMap st k)"
    by (simp add: evictKeys_def)
  have 4: "selection ?st = Some (NodeSelection (S - nodeKey ` set comps))" by simp
  have 5: "?D = {k0} \<longrightarrow> nodeMap ?st = evictKeys {k0} (nodeMap st)" by simp
  show ?thesis
    unfolding s by (intro conjI) (fact 0, fact 1, fact 2, fact 3, fact 4, fact 5)
qed

lemma exampleDispatch:
  "dispatchCommand (mountHorizontalRules exampleComponents) KEY_DELETE_COMMAND
      \<lparr> target = None, shiftKey = False, defaultPrevented = False \<rparr> exampleState
    = (Inr False, \<lparr> target = None, shiftKey = False, defaultPrevented = True \<rparr>,
       exampleState \<lparr> nodeMap := evictKeys {''hr1'', ''hr2''} exampleTable,
                       selection := Some (NodeSelection {}) \<rparr>)"
proof -
  have h2: "selection exampleState = Some (NodeSelection {''hr1'', ''hr2''})"
    by (simp add: exampleState_def)
  have h3: "keysAgree (nodeMap exampleState)" and h4: "childrenHaveParent (nodeMap exampleState)"
    using exampleTable_invariants by (simp_all add: exampleState_def)
  have h5: "distinct (map nodeKey exampleComponents)"
    using exampleComponents_selected by (rule conjunct1)
  have h6: "\<forall>c \<in> set exampleComponents. isSelected c = (nodeKey c \<in> {''hr1'', ''hr2''})
         \<and> isHorizontalRuleNode (nodeMap exampleState (nodeKey c))"
    using exampleComponents_selected by (rule conjunct2)
  have K: "{''hr1'', ''hr2''} \<inter> nodeKey ` set exampleComponents = {''hr1'', ''hr2''}"
    by (simp add: exampleComponents_def)
  have K': "{''hr1'', ''hr2''} - nodeKey ` set exampleComponents = {}"
    by (simp add: exampleComponents_def)
  have n: "nodeMap exampleState = exampleTable" by (simp add: exampleState_def)
  have "dispatchCommand (mountHorizontalRules exampleComponents) KEY_DELETE_COMMAND
      \<lparr> target = None, shiftKey = False, defaultPrevented = False \<rparr> exampleState
    = (Inr False,
       \<lparr> target = None, shiftKey = False, defaultPrevented = False \<rparr>
         \<lparr> defaultPrevented := defaultPrevented \<lparr> target = None, shiftKey = False, defaultPrevented = False \<rparr>
            \<or> {''hr1'', ''hr2''} \<inter> nodeKey ` set exampleComponents \<noteq> {} \<rparr>,
       exampleState \<lparr> nodeMap := evictKeys ({''hr1'', ''hr2''} \<inter> nodeKey ` set exampleComponents)
                                     (nodeMap exampleState),
                       selection := Some (NodeSelection ({''hr1'', ''hr2''} - nodeKey ` set exampleComponents)) \<rparr>)"
    by (rule dispatch_delete_mounted [OF disjI1 [OF refl] h2 h3 h4 h5 h6])
  then show ?thesis by (simp only: K K' n) simp
qed

theorem delete_removes_selected_horizontal_rules_witness:
  "selection exampleState = Some (NodeSelection {''hr1'', ''hr2''})
   \<and> keysAgree (nodeMap exampleState) \<and> childrenHaveParent (nodeMap exampleState)
   \<and> distinct (map nodeKey exampleComponents)
   \<and> fst (dispatchCommand (mountHorizontalRules exampleComponents) KEY_DELETE_COMMAND
            \<lparr> target = None, shiftKey = False, defaultPrevented = False \<rparr> exampleState) = Inr False
   \<and> nodeMap (snd (snd (dispatchCommand (mountHorizontalRules exampleComponents) KEY_DELETE_COMMAND
            \<lparr> target = None, shiftKey = False, defaultPrevented = False \<rparr> exampleState))) ''hr1'' = None
   \<and> nodeMap (snd (snd (dispatchCommand (mountHorizontalRules exampleComponents) KEY_DELETE_COMMAND
            \<lparr> target = None, shiftKey = False, defaultPrevented = False \<rparr> exampleState))) ''t''
        = Some exampleHashtag
   \<and> selection (snd (snd (dispatchCommand (mountHorizontalRules exampleComponents) KEY_DELETE_COMMAND
            \<lparr> target = None, shiftKey = False, defaultPrevented = False \<rparr> exampleState)))
        = Some (NodeSelection {})"
proof -
  let ?ev = "\<lparr> target = None, shiftKey = False, defaultPrevented = False \<rparr>"
  have h2: "selection exampleState = Some (NodeSelection {''hr1'', ''hr2''})"
    by (simp add: exampleState_def)
  have h3: "keysAgree (nodeMap exampleState)" and h4: "childrenHaveParent (nodeMap exampleState)"
    using exampleTable_invariants by (simp_all add: exampleState_def)
  have h5: "distinct (map nodeKey exampleComponents)"
    using exampleComponents_selected by (rule conjunct1)
  have h6: "\<forall>c \<in> set exampleComponents. isSelected c = (nodeKey c \<in> {''hr1'', ''hr2''})
         \<and> isHorizontalRuleNode (nodeMap exampleState (nodeKey c))"
    using exampleComponents_selected by (rule conjunct2)
  have K: "{''hr1'', ''hr2''} \<inter> nodeKey ` set exampleComponents = {''hr1'', ''hr2''}"
    by (simp add: exampleComponents_def)
  have K': "{''hr1'', ''hr2''} - nodeKey ` set exampleComponents = {}"
    by (simp add: exampleComponents_def)
  have n: "nodeMap exampleState = exampleTable" by (simp add: exampleState_def)
  note T = delete_removes_selected_horizontal_rules
             [OF disjI1 [OF refl] h2 h3 h4 h5 h6, of ?ev "''hr1''"]
  have a: "fst (dispatchCommand (mountHorizontalRules exampleComponents) KEY_DELETE_COMMAND
              ?ev exampleState) = Inr False"
    by (rule T [THEN conjunct1])
  have b: "nodeMap (snd (snd (dispatchCommand (mountHorizontalRules exampleComponents)
              KEY_DELETE_COMMAND ?ev exampleState))) = evictKeys {''hr1'', ''hr2''} exampleTable"
    using T [THEN conjunct2, THEN conjunct1] by (simp only: K n)
  have c: "selection (snd (snd (dispatchCommand (mountHorizontalRules exampleComponents)
              KEY_DELETE_COMMAND ?ev exampleState))) = Some (NodeSelection {})"
    using T [THEN conjunct2, THEN conjunct2, THEN conjunct2, THEN conjunct2, THEN conjunct1]
    by (simp only: K')
  have t: "evictKeys {''hr1'', ''hr2''} exampleTable ''t'' = Some exampleHashtag"
    by (simp add: evictKeys_def exampleTable_lookup withoutChildren_def exampleHashtag_def
        exampleNode_def LexicalNode_new_def)
  have e: "evictKeys {''hr1'', ''hr2''} exampleTable ''hr1'' = None"
    by (simp add: evictKeys_def)
  show ?thesis
    by (intro conjI)
      (fact h2, fact h3, fact h4, fact h5, fact a, simp only: b e, simp only: b t, fact c)
qed

theorem delete_removes_other_rule_counterexample:
  "isHorizontalRuleNode (nodeMap exampleState ''hr1'')
   \<and> isHorizontalRuleNode (nodeMap exampleState ''hr2'')
   \<and> selection exampleState = Some (NodeSelection {''hr1'', ''hr2''})
   \<and> nodeMap (snd (snd (dispatchCommand (mountHorizontalRules exampleComponents) KEY_DELETE_COMMAND
            \<lparr> target = None, shiftKey = False, defaultPrevented = False \<rparr> exampleState))) ''hr1'' = None
   \<and> nodeMap (snd (snd (dispatchCommand (mountHorizontalRules exampleComponents) KEY_DELETE_COMMAND
            \<lparr> target = None, shiftKey = False, defaultPrevented = False \<rparr> exampleState))) ''hr2'' = None"
proof -
  have hr: "isHorizontalRuleNode (nodeMap exampleState ''hr1'')
            \<and> isHorizontalRuleNode (nodeMap exampleState ''hr2'')"
    by (simp add: exampleState_def exampleTable_lookup isHorizontalRuleNode_def exampleNode_def
        LexicalNode_new_def)
  have h2: "selection exampleState = Some (NodeSelection {''hr1'', ''hr2''})"
    by (simp add: exampleState_def)
  have e: "evictKeys {''hr1'', ''hr2''} exampleTable ''hr1'' = None
           \<and> evictKeys {''hr1'', ''hr2''} exampleTable ''hr2'' = None"
    by (simp add: evictKeys_def)
  from hr h2 e show ?thesis
    by (simp add: exampleDispatch)
qed

end
